theory Spec2Isabelle
  imports Complex_Main "HOL-Library.Char_ord" "HOL-Library.List_Lexorder" "HOL-Library.Multiset"
begin

section \<open>Python values that the queue handler serialises\<close>

text \<open>
  The work items of \<open>processes/queue_handler.py\<close> are dictionaries of JSON data.
  A dictionary keeps its insertion order, so it is an association list; Python
  dictionaries have no duplicate keys, which \<open>wf_json\<close> states. Strings are byte lists.
  Floats are left out: no item of the catalog holds one.
\<close>

datatype json =
    JNull
  | JBool bool
  | JInt int
  | JStr string
  | JList "json list"
  | JDict "(string \<times> json) list"


subsection \<open>json.dumps(item, sort_keys=True, ensure_ascii=False)\<close>

definition hex_digit :: "nat \<Rightarrow> char" where
  "hex_digit d = (''0123456789abcdef'') ! d"

text \<open>
  The encoder's escape table with \<open>ensure_ascii=False\<close>: backslash, the double quote,
  the five short escapes, and \<open>\u00XX\<close> for the other characters below 0x20.
\<close>

definition escape_char :: "char \<Rightarrow> string" where
  "escape_char c =
     (if c = CHR 0x5C then [CHR 0x5C, CHR 0x5C]
      else if c = CHR 0x22 then [CHR 0x5C, CHR 0x22]
      else if c = CHR 0x08 then [CHR 0x5C, CHR ''b'']
      else if c = CHR 0x0C then [CHR 0x5C, CHR ''f'']
      else if c = CHR 0x0A then [CHR 0x5C, CHR ''n'']
      else if c = CHR 0x0D then [CHR 0x5C, CHR ''r'']
      else if c = CHR 0x09 then [CHR 0x5C, CHR ''t'']
      else if (of_char c :: nat) < 32
        then [CHR 0x5C, CHR ''u'', CHR ''0'', CHR ''0'',
              hex_digit ((of_char c :: nat) div 16), hex_digit ((of_char c :: nat) mod 16)]
      else [c])"

definition encode_basestring :: "string \<Rightarrow> string" where
  "encode_basestring s = [CHR 0x22] @ concat (map escape_char s) @ [CHR 0x22]"

fun str_nat :: "nat \<Rightarrow> string" where
  "str_nat n =
     (if n < 10 then [(''0123456789'') ! n]
      else str_nat (n div 10) @ [(''0123456789'') ! (n mod 10)])"

declare str_nat.simps [simp del]

definition str_int :: "int \<Rightarrow> string" where
  "str_int i = (if i < 0 then CHR ''-'' # str_nat (nat (- i)) else str_nat (nat i))"

fun join :: "string \<Rightarrow> string list \<Rightarrow> string" where
  "join sep [] = []"
| "join sep [x] = x"
| "join sep (x # y # ys) = x @ sep @ join sep (y # ys)"

text \<open>
  With \<open>sort_keys=True\<close> the encoder sorts the items of every dictionary, at every
  depth, before it writes them; the separators are the defaults \<open>", "\<close> and \<open>": "\<close>.
  Python compares strings code point by code point, a proper prefix first, which is the
  lexicographic order on character lists.
\<close>

fun dumps :: "json \<Rightarrow> string" where
  "dumps JNull = ''null''"
| "dumps (JBool b) = (if b then ''true'' else ''false'')"
| "dumps (JInt i) = str_int i"
| "dumps (JStr s) = encode_basestring s"
| "dumps (JList xs) = ''['' @ join '', '' (map dumps xs) @ '']''"
| "dumps (JDict kvs) =
     ''{'' @ join '', '' (map (\<lambda>kv. encode_basestring (fst kv) @ '': '' @ dumps (snd kv))
                               (sort_key fst kvs)) @ ''}''"

definition create_sort_key :: "json \<Rightarrow> string" where
  "create_sort_key item = dumps item"



section \<open>The queue dispatcher (processes/queue_handler.py)\<close>

text \<open>
  \<open>helpers/config.py\<close> holds three constants; they are parameters here.
  \<open>RETRY_BASE_DELAY\<close> is taken as an exact number: the product with a power of two
  is exact in binary floating point as long as it does not overflow.
\<close>

record config =
  MAX_CONCURRENCY :: int
  MAX_RETRIES :: int
  RETRY_BASE_DELAY :: real

text \<open>
  A work item as \<open>retrieve_items_for_queue\<close> builds it: the dictionary
  \<open>{"reference": ref, "data": d}\<close> with a string reference and the payload \<open>d\<close>.
  For a string, \<open>str(it.get("reference") or "")\<close> is the string itself.
\<close>

record work_item =
  reference :: string
  payload :: json

definition item_dict :: "work_item \<Rightarrow> json" where
  "item_dict it = JDict [(''reference'', JStr (reference it)), (''data'', payload it)]"

datatype level = INFO | WARNING | ERROR

datatype log_arg = AStr string | AInt int | AReal real

text \<open>
  What one task does, in the order it does it: taking and giving back the semaphore,
  the blocking call \<open>workqueue.add_item(data, reference)\<close>, the logger calls with their
  format string and arguments, and \<open>asyncio.sleep\<close>.
\<close>

datatype event =
    SemAcquire
  | SemRelease
  | AddItem json string
  | Log level string "log_arg list"
  | Sleep real

text \<open>
  The work queue is outside the program: \<open>wq data reference n\<close> is the outcome of the
  \<open>n\<close>-th call of \<open>add_item\<close> for that item, \<open>None\<close> when it returns and
  \<open>Some e\<close> when it raises an \<open>Exception\<close> that prints as \<open>e\<close>.
\<close>

type_synonym workqueue = "json \<Rightarrow> string \<Rightarrow> int \<Rightarrow> string option"

text \<open>
  The body of \<open>for attempt in range(1, config.MAX_RETRIES + 1)\<close>, from \<open>attempt\<close> on.
  The result is the events and the value returned: \<open>Some True\<close>, \<open>Some False\<close>, or
  \<open>None\<close> when the range is used up and the function falls off its end.
\<close>

function attempt_loop ::
  "config \<Rightarrow> workqueue \<Rightarrow> json \<Rightarrow> string \<Rightarrow> int \<Rightarrow> event list \<times> bool option" where
  "attempt_loop cfg wq dat ref attempt =
     (if attempt > MAX_RETRIES cfg then ([], None)
      else case wq dat ref attempt of
          None \<Rightarrow>
            ([AddItem dat ref,
              Log INFO ''Added item to queue with reference: %s'' [AStr ref]], Some True)
        | Some e \<Rightarrow>
            if attempt \<ge> MAX_RETRIES cfg
            then ([AddItem dat ref,
                   Log ERROR ''Failed to add item %s after %d attempts: %s''
                     [AStr ref, AInt attempt, AStr e]], Some False)
            else
              let backoff = RETRY_BASE_DELAY cfg * (2 ^ nat (attempt - 1));
                  (evs, r) = attempt_loop cfg wq dat ref (attempt + 1)
              in ([AddItem dat ref,
                   Log WARNING ''Error adding %s (attempt %d/%d). Retrying in %.2fs... %s''
                     [AStr ref, AInt attempt, AInt (MAX_RETRIES cfg), AReal backoff, AStr e],
                   Sleep backoff] @ evs, r))"
  by pat_completeness auto
termination
  by (relation "measure (\<lambda>(cfg, wq, dat, ref, attempt). nat (MAX_RETRIES cfg + 1 - attempt))") auto

declare attempt_loop.simps [simp del]

text \<open>
  \<open>async with sem:\<close> encloses the whole loop. The size of the semaphore,
  \<open>MAX_CONCURRENCY\<close>, decides when a task gets the permit, not what the task does.
\<close>

definition item_data :: "work_item \<Rightarrow> json" where
  "item_data it = JDict [(''item'', item_dict it)]"

definition add_one :: "config \<Rightarrow> workqueue \<Rightarrow> work_item \<Rightarrow> event list \<times> bool option" where
  "add_one cfg wq it =
     (let ref = reference it;
          dat = item_data it;
          (evs, r) = attempt_loop cfg wq dat ref 1
      in ([SemAcquire] @ evs @ [SemRelease], r))"

definition sorted_items :: "work_item list \<Rightarrow> work_item list" where
  "sorted_items items = sort_key (\<lambda>it. create_sort_key (item_dict it)) items"

text \<open>
  \<open>concurrent_add\<close> returns \<open>None\<close> on both of its paths (\<open>returned\<close>; a summary
  triple would be \<open>Some\<close>); what it does is its own log and one task per item.
  \<open>asyncio.gather\<close> starts the tasks in the sorted order and returns their results in
  that order; how the tasks interleave is not fixed by the program and is not modelled,
  so each task keeps its own event list.
\<close>

record dispatch =
  log :: "event list"
  tasks :: "(event list \<times> bool option) list"
  returned :: "(int \<times> int \<times> int) option"

definition concurrent_add :: "config \<Rightarrow> workqueue \<Rightarrow> work_item list \<Rightarrow> dispatch" where
  "concurrent_add cfg wq items =
     (if items = []
      then \<lparr>log = [Log INFO ''No new items to add.'' []], tasks = [], returned = None\<rparr>
      else
        let srt = sorted_items items;
            results = map (add_one cfg wq) srt;
            successes = int (length (filter (\<lambda>t. snd t = Some True) results));
            failures = int (length results) - successes
        in \<lparr>log = [Log INFO ''Processing %d items sorted by complete JSON structure''
                      [AInt (int (length srt))],
                    Log INFO ''Summary: %d succeeded, %d failed out of %d''
                      [AInt successes, AInt failures, AInt (int (length results))]],
            tasks = results, returned = None\<rparr>)"

subsection \<open>Reading a task's events\<close>

text \<open>Whether the task holds the permit at each of its sleeps, starting from \<open>held\<close>.\<close>

fun permit_at_sleeps :: "bool \<Rightarrow> event list \<Rightarrow> bool list" where
  "permit_at_sleeps held [] = []"
| "permit_at_sleeps held (SemAcquire # es) = permit_at_sleeps True es"
| "permit_at_sleeps held (SemRelease # es) = permit_at_sleeps False es"
| "permit_at_sleeps held (Sleep d # es) = held # permit_at_sleeps held es"
| "permit_at_sleeps held (e # es) = permit_at_sleeps held es"

text \<open>
  The rule of the specification, read on a task's events from the state \<open>held\<close>:
  every sleep happens without the permit.
\<close>

fun never_sleeps_holding :: "bool \<Rightarrow> event list \<Rightarrow> bool" where
  "never_sleeps_holding held [] = True"
| "never_sleeps_holding held (SemAcquire # es) = never_sleeps_holding True es"
| "never_sleeps_holding held (SemRelease # es) = never_sleeps_holding False es"
| "never_sleeps_holding held (Sleep d # es) = (\<not> held \<and> never_sleeps_holding held es)"
| "never_sleeps_holding held (e # es) = never_sleeps_holding held es"

fun is_sleep :: "event \<Rightarrow> bool" where
  "is_sleep (Sleep d) = True"
| "is_sleep _ = False"

fun is_add_item :: "event \<Rightarrow> bool" where
  "is_add_item (AddItem d r) = True"
| "is_add_item _ = False"

fun is_sem :: "event \<Rightarrow> bool" where
  "is_sem SemAcquire = True"
| "is_sem SemRelease = True"
| "is_sem _ = False"

fun is_summary :: "event \<Rightarrow> bool" where
  "is_summary (Log l fmt args) = (fmt = ''Summary: %d succeeded, %d failed out of %d'')"
| "is_summary _ = False"

text \<open>The text of the exception of the \<open>i\<close>-th call, empty when the call returns.\<close>

definition raised :: "workqueue \<Rightarrow> json \<Rightarrow> string \<Rightarrow> int \<Rightarrow> string" where
  "raised wq dat ref i = (case wq dat ref i of None \<Rightarrow> [] | Some e \<Rightarrow> e)"

text \<open>
  The three events of the failed attempt \<open>i\<close> when another attempt follows: the call,
  the warning, and the sleep of \<open>RETRY_BASE_DELAY * 2 ** (i - 1)\<close>.
\<close>

definition retry_block :: "config \<Rightarrow> workqueue \<Rightarrow> json \<Rightarrow> string \<Rightarrow> int \<Rightarrow> event list" where
  "retry_block cfg wq dat ref i =
     [AddItem dat ref,
      Log WARNING ''Error adding %s (attempt %d/%d). Retrying in %.2fs... %s''
        [AStr ref, AInt i, AInt (MAX_RETRIES cfg),
         AReal (RETRY_BASE_DELAY cfg * 2 ^ nat (i - 1)), AStr (raised wq dat ref i)],
      Sleep (RETRY_BASE_DELAY cfg * 2 ^ nat (i - 1))]"

subsection \<open>A configuration, two queues and two items to run the dispatcher on\<close>

definition cfg3 :: config where
  "cfg3 = \<lparr>MAX_CONCURRENCY = 2, MAX_RETRIES = 3, RETRY_BASE_DELAY = 1 / 2\<rparr>"

definition wq_first_fails :: workqueue where
  "wq_first_fails dat ref n = (if n \<le> 1 then Some ''timed out'' else None)"

definition wq_always_fails :: workqueue where
  "wq_always_fails dat ref n = Some ''timed out''"

definition item_departments :: work_item where
  "item_departments =
     \<lparr>reference = ''2026-11-03_go_pull_term_data_departments'',
      payload = JDict [(''process'', JStr ''term''), (''caseType'', JStr ''emnesager''),
                    (''storedProcedure'', JStr ''GO_Departments_Insert'')]\<rparr>"



section \<open>Shared by the two pulls\<close>

datatype exn =
    RequestException string
  | JSONDecodeError string
  | KeyError string
  | TypeError string
  | AttributeError string

text \<open>
  \<open>execute_stored_procedure(connection_string, procedure, params)\<close> comes from
  \<open>mbu_dev_shared_components\<close>; it answers with \<open>success\<close> and \<open>error_message\<close>.
  A parameter is \<open>name: (type tag, value)\<close>.
\<close>

type_synonym params = "(string \<times> string \<times> string) list"

record sp_result =
  success :: bool
  error_message :: string

type_synonym database = "string \<Rightarrow> string \<Rightarrow> params \<Rightarrow> sp_result"

text \<open>
  The body of the tree request; the other ten keys are constants of the source
  (\<open>includeDeprecated\<close>, \<open>lcid = 1030\<close>, \<open>pageLimit = 2000\<close>, ...). \<open>termsetId = None\<close> is the
  key left out.
\<close>

record body =
  guid :: "string option"
  termsetId :: "string option"

text \<open>What the program does to the outside, in order.\<close>

datatype effect =
    Post string
  | PostJson string "(string \<times> string) list" body
  | Print string
  | PrintParams params
  | Execute string string params

fun is_execute :: "effect \<Rightarrow> bool" where
  "is_execute (Execute c p ps) = True"
| "is_execute _ = False"

fun is_print :: "effect \<Rightarrow> bool" where
  "is_print (Print m) = True"
| "is_print _ = False"

section \<open>The flat list pull (helpers/taxonomy.py)\<close>

type_synonym row = "(string \<times> string) list"

text \<open>A decoded page: both keys may be missing.\<close>

record page =
  Row :: "row list option"
  NextHref :: "string option"

text \<open>
  \<open>session.post(url)\<close> either raises a \<open>RequestException\<close> (\<open>Inl\<close> its text) or gives
  a response with \<open>ok\<close>, \<open>text\<close> and the outcome of \<open>json()\<close> (\<open>Inl\<close> when the body does
  not decode). The server is a state machine of any state type.
\<close>

record response =
  resp_ok :: bool
  resp_text :: string
  resp_json :: "string + page"

type_synonym 's session = "'s \<Rightarrow> string \<Rightarrow> (string + response) \<times> 's"

definition fetch_data :: "'s session \<Rightarrow> 's \<Rightarrow> string \<Rightarrow> (exn + page) \<times> 's" where
  "fetch_data session s url =
     (case session s url of
        (Inl msg, s') \<Rightarrow> (Inl (RequestException msg), s')
      | (Inr r, s') \<Rightarrow>
          if \<not> resp_ok r then (Inl (RequestException (''Error fetching data: '' @ resp_text r)), s')
          else (case resp_json r of
                  Inl msg \<Rightarrow> (Inl (JSONDecodeError msg), s')
                | Inr json_data \<Rightarrow> (Inr json_data, s')))"

definition get_default :: "row \<Rightarrow> string \<Rightarrow> string" where
  "get_default item k = (case map_of item k of None \<Rightarrow> [] | Some v \<Rightarrow> v)"

definition insert_params :: "row \<Rightarrow> string \<Rightarrow> params" where
  "insert_params item case_type =
     [(''ID'', ''str'', get_default item ''ID''),
      (''Title'', ''str'', get_default item ''Title''),
      (''IdForTermStore'', ''str'', get_default item ''IdForTermStore''),
      (''IdForTerm'', ''str'', get_default item ''IdForTerm''),
      (''IdForTermSet'', ''str'', get_default item ''IdForTermSet''),
      (''Path'', ''str'', get_default item ''Path''),
      (''CaseType'', ''str'', case_type)]"

fun insert_into_database :: "database \<Rightarrow> string \<Rightarrow> string \<Rightarrow> row list \<Rightarrow> string \<Rightarrow> effect list" where
  "insert_into_database db connection_string stored_procedure [] case_type = []"
| "insert_into_database db connection_string stored_procedure (item # rest) case_type =
     (let params = insert_params item case_type;
          result = db connection_string stored_procedure params
      in [PrintParams params, Execute connection_string stored_procedure params]
         @ (if \<not> success result
            then [Print (''Failed to insert record: '' @ error_message result)] else [])
         @ insert_into_database db connection_string stored_procedure rest case_type)"

text \<open>
  The loop \<open>while next_url:\<close> of \<open>get_taxononmy\<close>, with the rows and the effects so
  far. It ends with the rows, or with the exception that left it; a server that sends a
  \<open>NextHref\<close> with every page keeps it running, and then there is no result.
\<close>

partial_function (option) while_next_url ::
  "'s session \<Rightarrow> string \<Rightarrow> string \<Rightarrow> string option \<Rightarrow> row list \<Rightarrow> effect list \<Rightarrow> 's
     \<Rightarrow> ((exn + row list) \<times> effect list \<times> 's) option" where
  "while_next_url session base_url endpoint next_url all_rows out s =
     (case next_url of
        None \<Rightarrow> Some (Inr all_rows, out, s)
      | Some url \<Rightarrow>
          if url = [] then Some (Inr all_rows, out, s)
          else (case fetch_data session s url of
                  (Inl e, s') \<Rightarrow> Some (Inl e, out @ [Post url], s')
                | (Inr json_data, s') \<Rightarrow>
                    while_next_url session base_url endpoint
                      (case NextHref json_data of
                         Some href \<Rightarrow> Some (base_url @ endpoint @ href)
                       | None \<Rightarrow> None)
                      (all_rows @ (case Row json_data of Some rows \<Rightarrow> rows | None \<Rightarrow> []))
                      (out @ [Post url, Print (''Fetched data from: '' @ url)])
                      s'))"

definition endpoint_of :: "string \<Rightarrow> string" where
  "endpoint_of case_type =
     ''/'' @ case_type @ ''/_api/web/GetList('' @ [CHR 0x27] @ ''%2F'' @ case_type
       @ ''%2FLists%2FTaxonomyHiddenList'' @ [CHR 0x27] @ '')/RenderListDataAsStream''"

definition full_url_of :: "string \<Rightarrow> string \<Rightarrow> string \<Rightarrow> string" where
  "full_url_of base_url case_type view_id =
     base_url @ endpoint_of case_type @ ''?Paged=TRUE&p_ID=0&PageFirstRow=31&View='' @ view_id"

text \<open>
  The \<open>except\<close> clauses in their order. The decode error of \<open>response.json()\<close> is
  \<open>requests.exceptions.JSONDecodeError\<close>, a \<open>RequestException\<close>, and the first clause
  takes it. \<open>str\<close> of a \<open>KeyError\<close> is the key in quotes. \<open>AttributeError\<close> has no clause.
\<close>

fun handler :: "exn \<Rightarrow> effect list option" where
  "handler (RequestException m) = Some [Print (''Request error occurred: '' @ m)]"
| "handler (JSONDecodeError m) = Some [Print (''Request error occurred: '' @ m)]"
| "handler (KeyError k) =
     Some [Print (''Missing key in credentials: '' @ [CHR 0x27] @ k @ [CHR 0x27])]"
| "handler (TypeError m) = Some [Print (''Type error: '' @ m)]"
| "handler (AttributeError m) = None"

text \<open>
  \<open>get_taxononmy\<close>: the two credentials of the session are read before the \<open>try\<close>,
  the connection string inside it. The result is the exception that leaves the
  function, if any, with the effects and the server's state.
\<close>

definition get_taxononmy ::
  "'s session \<Rightarrow> database \<Rightarrow> (string \<rightharpoonup> string) \<Rightarrow> string \<Rightarrow> string \<Rightarrow> string \<Rightarrow> 's
     \<Rightarrow> (exn option \<times> effect list \<times> 's) option" where
  "get_taxononmy session db credentials case_type view_id base_url s =
     (let endpoint = endpoint_of case_type;
          full_url = full_url_of base_url case_type view_id
      in case credentials ''go_api_username'' of
           None \<Rightarrow> Some (Some (KeyError ''go_api_username''), [], s)
         | Some username \<Rightarrow>
      (case credentials ''go_api_password'' of
           None \<Rightarrow> Some (Some (KeyError ''go_api_password''), [], s)
         | Some password \<Rightarrow>
      (case while_next_url session base_url endpoint (Some full_url) [] [] s of
           None \<Rightarrow> None
         | Some (Inl e, out, s') \<Rightarrow>
             (case handler e of
                Some prints \<Rightarrow> Some (None, out @ prints, s')
              | None \<Rightarrow> Some (Some e, out, s'))
         | Some (Inr all_rows, out, s') \<Rightarrow>
             (case credentials ''sql_conn_string'' of
                None \<Rightarrow>
                  Some (None, out @ [Print (''Missing key in credentials: '' @ [CHR 0x27]
                                             @ ''sql_conn_string'' @ [CHR 0x27])], s')
              | Some conn \<Rightarrow>
                  Some (None,
                        out @ insert_into_database db conn ''rpa.GO_TaxonomyList_Insert''
                                all_rows case_type
                            @ [Print ''All rows have been inserted into the database.''],
                        s')))))"

text \<open>A server that plays a list of responses, one for each request, whatever the URL.\<close>

fun scripted :: "(string + response) list session" where
  "scripted [] url = (Inl ''no response left'', [])"
| "scripted (r # rs) url = (r, rs)"

definition ok_page :: "page \<Rightarrow> string + response" where
  "ok_page p = Inr \<lparr>resp_ok = True, resp_text = [], resp_json = Inr p\<rparr>"

text \<open>The URLs the loop asks for when the pages \<open>ps\<close> all carry a cursor.\<close>

definition cursor_urls :: "string \<Rightarrow> string \<Rightarrow> page list \<Rightarrow> string list" where
  "cursor_urls base_url endpoint ps =
     map (\<lambda>p. base_url @ endpoint @ (case NextHref p of Some h \<Rightarrow> h | None \<Rightarrow> [])) ps"

definition rows_of :: "page \<Rightarrow> row list" where
  "rows_of p = (case Row p of Some rows \<Rightarrow> rows | None \<Rightarrow> [])"

fun posts :: "effect list \<Rightarrow> string list" where
  "posts [] = []"
| "posts (Post url # es) = url # posts es"
| "posts (e # es) = posts es"



section \<open>The term tree pull (helpers/term_data_handler.py)\<close>

text \<open>
  One record of \<open>d.Content\<close>: \<open>Nm\<close>, \<open>Id\<close> and \<open>Cc\<close>, each of which may be missing.
\<close>

record child_record =
  node_Nm :: "string option"
  node_Id :: "string option"
  node_Cc :: "int option"

text \<open>
  The decoded answer, by what the guard of \<open>_get_child_terms\<close> looks at: no key
  \<open>d\<close> (or an empty answer), a \<open>d\<close> without \<open>Content\<close>, or the list under
  \<open>d.Content\<close>.
\<close>

datatype tx_json =
    NoD
  | NoContent
  | Content "child_record list"

text \<open>
  The remote service: \<open>Inl\<close> the text of the \<open>RequestException\<close> that
  \<open>requests.post\<close>, \<open>raise_for_status\<close> or \<open>json()\<close> raised, else the decoded answer.
\<close>

type_synonym api = "string \<Rightarrow> (string \<times> string) list \<Rightarrow> body \<Rightarrow> string + tx_json"

definition post_data ::
  "api \<Rightarrow> string \<Rightarrow> (string \<times> string) list \<Rightarrow> body \<Rightarrow> tx_json option \<times> effect list" where
  "post_data remote url headers bdy =
     (case remote url headers bdy of
        Inl msg \<Rightarrow> (None, [PostJson url headers bdy, Print (''Request failed. Error message: '' @ msg)])
      | Inr j \<Rightarrow> (Some j, [PostJson url headers bdy]))"

text \<open>
  The dictionaries that \<open>_get_child_terms\<close> builds: string keys with a string or
  \<open>None\<close> under each, and the key \<open>Children\<close>, when there, with a list of such
  dictionaries.
\<close>

datatype term_dict = TermDict (fields: "(string \<times> string option) list") (children: "term_dict list option")

text \<open>\<open>data.get(k)\<close> and the f-string of its value.\<close>

definition get :: "term_dict \<Rightarrow> string \<Rightarrow> string option" where
  "get data k = (case map_of (fields data) k of None \<Rightarrow> None | Some v \<Rightarrow> v)"

fun fstr :: "string option \<Rightarrow> string" where
  "fstr None = ''None''"
| "fstr (Some s) = s"

text \<open>Truth of a string or \<open>None\<close>, and of a dictionary or \<open>None\<close>.\<close>

fun truthy :: "string option \<Rightarrow> bool" where
  "truthy None = False"
| "truthy (Some s) = (s \<noteq> [])"

fun truthy_dict :: "term_dict option \<Rightarrow> bool" where
  "truthy_dict None = False"
| "truthy_dict (Some data) = (\<not> (fields data = [] \<and> children data = None))"

datatype 'a outcome = Return 'a | Raise exn | OutOfFuel

text \<open>The texts of the two errors that Python raises on \<open>None\<close>.\<close>

definition none_not_subscriptable :: string where
  "none_not_subscriptable =
     [CHR 0x27] @ ''NoneType'' @ [CHR 0x27] @ '' object is not subscriptable''"

definition none_has_no_group :: string where
  "none_has_no_group =
     [CHR 0x27] @ ''NoneType'' @ [CHR 0x27] @ '' object has no attribute ''
       @ [CHR 0x27] @ ''group'' @ [CHR 0x27]"

definition parent_id_bool :: "string option \<Rightarrow> bool" where
  "parent_id_bool parent_uuid = (\<not> truthy parent_uuid)"

definition request_body :: "string option \<Rightarrow> string \<Rightarrow> body" where
  "request_body parent_uuid term_set_uuid =
     \<lparr>guid = parent_uuid,
      termsetId = (if \<not> parent_id_bool parent_uuid then Some term_set_uuid else None)\<rparr>"

definition request_url :: "string option \<Rightarrow> string \<Rightarrow> string \<Rightarrow> string" where
  "request_url parent_uuid base_url case_type =
     (if parent_id_bool parent_uuid
      then base_url @ ''/'' @ case_type
             @ ''/_vti_bin/taxonomyinternalservice.json/GetChildTermsInTermSetWithPaging''
      else base_url @ ''/'' @ case_type
             @ ''/_vti_bin/taxonomyinternalservice.json/GetChildTermsInTermWithPaging'')"

definition declared_children :: "child_record \<Rightarrow> bool" where
  "declared_children node = ((case node_Cc node of None \<Rightarrow> 0 | Some c \<Rightarrow> c) > 0)"

text \<open>
  \<open>_get_child_terms\<close> and its loop \<open>for node in content\<close>. The recursion follows the
  remote data and need not end, so it carries fuel: the depth still allowed. A result is
  the value returned (\<open>None\<close> or a dictionary), or the exception raised, with the
  effects so far. Subscripting the \<open>None\<close> of a failed recursive call raises
  \<open>TypeError\<close>.
\<close>

fun get_child_terms ::
    "nat \<Rightarrow> api \<Rightarrow> (string \<times> string) list \<Rightarrow> string option \<Rightarrow> string \<Rightarrow> string \<Rightarrow> string
       \<Rightarrow> term_dict option outcome \<times> effect list"
  and for_node_in ::
    "nat \<Rightarrow> api \<Rightarrow> (string \<times> string) list \<Rightarrow> string option \<Rightarrow> string \<Rightarrow> string \<Rightarrow> string
       \<Rightarrow> child_record list \<Rightarrow> term_dict list outcome \<times> effect list" where
  "get_child_terms 0 api_client headers parent_uuid term_set_uuid base_url case_type =
     (OutOfFuel, [])"
| "get_child_terms (Suc n) api_client headers parent_uuid term_set_uuid base_url case_type =
     (case post_data api_client (request_url parent_uuid base_url case_type) headers
             (request_body parent_uuid term_set_uuid) of
        (Some (Content content), es) \<Rightarrow>
          (case for_node_in n api_client headers parent_uuid term_set_uuid base_url case_type content of
             (Return chs, es') \<Rightarrow>
               (Return (Some (TermDict [(''Id'', parent_uuid)] (Some chs))), es @ es')
           | (Raise e, es') \<Rightarrow> (Raise e, es @ es')
           | (OutOfFuel, es') \<Rightarrow> (OutOfFuel, es @ es'))
      | (_, es) \<Rightarrow> (Return None, es))"
| "for_node_in n api_client headers parent_uuid term_set_uuid base_url case_type [] =
     (Return [], [])"
| "for_node_in n api_client headers parent_uuid term_set_uuid base_url case_type (node # rest) =
     (let node_name = node_Nm node; node_id = node_Id node in
      if truthy node_name \<and> truthy node_id then
        let child_fields = [(''Name'', node_name), (''Id'', node_id), (''ParentId'', parent_uuid)] in
        if declared_children node then
          (case get_child_terms n api_client headers node_id term_set_uuid base_url case_type of
             (Return None, es) \<Rightarrow>
               (Raise (TypeError none_not_subscriptable), es)
           | (Return (Some sub), es) \<Rightarrow>
               (case children sub of
                  None \<Rightarrow> (Raise (KeyError ''Children''), es)
                | Some grand \<Rightarrow>
                    (case for_node_in n api_client headers parent_uuid term_set_uuid base_url
                            case_type rest of
                       (Return chs, es') \<Rightarrow>
                         (Return (TermDict child_fields (Some grand) # chs), es @ es')
                     | (Raise e, es') \<Rightarrow> (Raise e, es @ es')
                     | (OutOfFuel, es') \<Rightarrow> (OutOfFuel, es @ es')))
           | (Raise e, es) \<Rightarrow> (Raise e, es)
           | (OutOfFuel, es) \<Rightarrow> (OutOfFuel, es))
        else
          (case for_node_in n api_client headers parent_uuid term_set_uuid base_url case_type rest of
             (Return chs, es') \<Rightarrow> (Return (TermDict child_fields None # chs), es')
           | (Raise e, es') \<Rightarrow> (Raise e, es')
           | (OutOfFuel, es') \<Rightarrow> (OutOfFuel, es'))
      else for_node_in n api_client headers parent_uuid term_set_uuid base_url case_type rest)"

text \<open>
  \<open>_insert_term_data_to_sql\<close>: the answer of the stored procedure is bound to nothing
  in the source; the model reads it and drops it.
\<close>

definition sql_data_params :: "term_dict \<Rightarrow> string \<Rightarrow> params" where
  "sql_data_params data term_set_uuid =
     [(''name'', ''str'', fstr (get data ''Name'')),
      (''uuid'', ''str'', fstr (get data ''Id'')),
      (''parent_uuid'', ''str'', fstr (get data ''ParentId'')),
      (''term_set_uuid'', ''str'', term_set_uuid)]"

fun insert_term_data_to_sql ::
  "database \<Rightarrow> term_dict option \<Rightarrow> string \<Rightarrow> string \<Rightarrow> string \<Rightarrow> effect list" where
  "insert_term_data_to_sql db None sql_conn_string term_set_uuid sql_stored_procedure = []"
| "insert_term_data_to_sql db (Some (TermDict fs chs)) sql_conn_string term_set_uuid
       sql_stored_procedure =
     (if \<not> truthy_dict (Some (TermDict fs chs)) then []
      else
        let ps = sql_data_params (TermDict fs chs) term_set_uuid;
            dropped = db sql_conn_string (''rpa.'' @ sql_stored_procedure) ps
        in Execute sql_conn_string (''rpa.'' @ sql_stored_procedure) ps
           # concat (map (\<lambda>child. insert_term_data_to_sql db (Some child) sql_conn_string
                                     term_set_uuid sql_stored_procedure)
                         (case chs of None \<Rightarrow> [] | Some cs \<Rightarrow> cs)))"

text \<open>
  \<open>get_form_digest\<close>: \<open>Inl\<close> the text of a \<open>RequestException\<close>, which the method
  prints and answers with \<open>None\<close>; else the page, as what the regular expression finds
  in it. \<open>re.search\<close> that finds nothing gives \<open>None\<close>, and \<open>.group\<close> on it raises
  \<open>AttributeError\<close>, which nothing catches.
\<close>

type_synonym digest_page = "string \<Rightarrow> string + string option"

definition get_form_digest :: "digest_page \<Rightarrow> string \<Rightarrow> string option outcome \<times> effect list" where
  "get_form_digest page url =
     (case page url of
        Inl msg \<Rightarrow> (Return None, [Post url, Print (''Request failed. Error message: '' @ msg)])
      | Inr None \<Rightarrow> (Raise (AttributeError none_has_no_group), [Post url])
      | Inr (Some v) \<Rightarrow> (Return (Some v), [Post url]))"

definition pull_term_data_from_go_to_sql ::
  "nat \<Rightarrow> digest_page \<Rightarrow> api \<Rightarrow> database \<Rightarrow> (string \<rightharpoonup> string) \<Rightarrow> string \<Rightarrow> string
     \<Rightarrow> string option \<Rightarrow> string \<Rightarrow> string \<Rightarrow> unit outcome \<times> effect list" where
  "pull_term_data_from_go_to_sql fuel page api_client db credentials base_url case_type
       start_term_id sql_stored_procedure term_set_uuid =
     (let url_form_digest = base_url @ ''/'' @ case_type @ ''/_layouts/15/termstoremanager.aspx'' in
      case credentials ''go_api_username'' of
        None \<Rightarrow> (Raise (KeyError ''go_api_username''), [])
      | Some username \<Rightarrow>
      (case credentials ''go_api_password'' of
        None \<Rightarrow> (Raise (KeyError ''go_api_password''), [])
      | Some password \<Rightarrow>
      (case get_form_digest page url_form_digest of
        (Raise e, es) \<Rightarrow> (Raise e, es)
      | (OutOfFuel, es) \<Rightarrow> (OutOfFuel, es)
      | (Return form_digest_value, es) \<Rightarrow>
          if truthy form_digest_value then
            let headers = [(''Content-Type'', ''application/json; charset=UTF-8''),
                           (''X-RequestDigest'', fstr form_digest_value)] in
            (case get_child_terms fuel api_client headers start_term_id term_set_uuid base_url
                    case_type of
               (Raise e, es') \<Rightarrow> (Raise e, es @ es')
             | (OutOfFuel, es') \<Rightarrow> (OutOfFuel, es @ es')
             | (Return result, es') \<Rightarrow>
                 (case credentials ''sql_conn_string'' of
                    None \<Rightarrow> (Raise (KeyError ''sql_conn_string''), es @ es')
                  | Some conn \<Rightarrow>
                      (Return (),
                       es @ es' @ insert_term_data_to_sql db result conn term_set_uuid
                                    sql_stored_procedure)))
          else (Return (), es))))"

subsection \<open>Reading a tree and the effects\<close>

text \<open>The \<open>guid\<close> of every tree request, in the order the requests are made.\<close>

fun guids :: "effect list \<Rightarrow> string option list" where
  "guids [] = []"
| "guids (PostJson url headers bdy # es) = guid bdy # guids es"
| "guids (e # es) = guids es"

text \<open>
  The dictionaries of a tree that carry the key \<open>Children\<close>, node before children,
  children from left to right, each by its \<open>Id\<close>.
\<close>

fun expanded :: "term_dict \<Rightarrow> string option list" where
  "expanded (TermDict fs chs) =
     (case chs of
        None \<Rightarrow> []
      | Some cs \<Rightarrow> get (TermDict fs chs) ''Id'' # concat (map expanded cs))"

text \<open>All dictionaries of a tree, node before children.\<close>

fun preorder :: "term_dict \<Rightarrow> term_dict list" where
  "preorder (TermDict fs chs) =
     TermDict fs chs # concat (map preorder (case chs of None \<Rightarrow> [] | Some cs \<Rightarrow> cs))"

definition carries_both :: "child_record \<Rightarrow> bool" where
  "carries_both node = (truthy (node_Nm node) \<and> truthy (node_Id node))"

text \<open>The content that the guard of \<open>_get_child_terms\<close> lets through for a parent.\<close>

definition content_of ::
  "api \<Rightarrow> (string \<times> string) list \<Rightarrow> string option \<Rightarrow> string \<Rightarrow> string \<Rightarrow> string
     \<Rightarrow> child_record list option" where
  "content_of api_client headers parent_uuid term_set_uuid base_url case_type =
     (case fst (post_data api_client (request_url parent_uuid base_url case_type) headers
                  (request_body parent_uuid term_set_uuid)) of
        Some (Content content) \<Rightarrow> Some content
      | _ \<Rightarrow> None)"

text \<open>
  The recursion under a parent nests at most \<open>n\<close> requests below the request for the
  parent: following the records that carry a name and an id and declare children, the
  \<open>n + 1\<close>-th answer at the latest has no such record, or no content.
\<close>

fun depth_within ::
  "nat \<Rightarrow> api \<Rightarrow> (string \<times> string) list \<Rightarrow> string option \<Rightarrow> string \<Rightarrow> string \<Rightarrow> string \<Rightarrow> bool" where
  "depth_within 0 api_client headers parent_uuid ts base_url ct =
     (case content_of api_client headers parent_uuid ts base_url ct of
        None \<Rightarrow> True
      | Some content \<Rightarrow>
          list_all (\<lambda>node. \<not> (carries_both node \<and> declared_children node)) content)"
| "depth_within (Suc n) api_client headers parent_uuid ts base_url ct =
     (case content_of api_client headers parent_uuid ts base_url ct of
        None \<Rightarrow> True
      | Some content \<Rightarrow>
          list_all (\<lambda>node. if carries_both node \<and> declared_children node
                          then depth_within n api_client headers (node_Id node) ts base_url ct
                          else True) content)"

text \<open>
  The same, and every one of these requests, the one for the parent included, is
  answered with content.
\<close>

fun fetches_succeed ::
  "nat \<Rightarrow> api \<Rightarrow> (string \<times> string) list \<Rightarrow> string option \<Rightarrow> string \<Rightarrow> string \<Rightarrow> string \<Rightarrow> bool" where
  "fetches_succeed 0 api_client headers parent_uuid ts base_url ct =
     (case content_of api_client headers parent_uuid ts base_url ct of
        None \<Rightarrow> False
      | Some content \<Rightarrow>
          list_all (\<lambda>node. \<not> (carries_both node \<and> declared_children node)) content)"
| "fetches_succeed (Suc n) api_client headers parent_uuid ts base_url ct =
     (case content_of api_client headers parent_uuid ts base_url ct of
        None \<Rightarrow> False
      | Some content \<Rightarrow>
          list_all (\<lambda>node. if carries_both node \<and> declared_children node
                          then fetches_succeed n api_client headers (node_Id node) ts base_url ct
                          else True) content)"

section \<open>Inputs for the runs below\<close>

definition page_one :: page where
  "page_one = \<lparr>Row = Some [[(''ID'', ''1''), (''Title'', ''Skole'')]],
               NextHref = Some ''?Paged=TRUE&p_ID=1&View=v''\<rparr>"

definition page_two :: page where
  "page_two = \<lparr>Row = None, NextHref = Some ''?Paged=TRUE&p_ID=2&View=v''\<rparr>"

definition page_three :: page where
  "page_three = \<lparr>Row = Some [[(''ID'', ''3'')], [(''ID'', ''4'')]], NextHref = None\<rparr>"

definition creds_no_username :: "string \<rightharpoonup> string" where
  "creds_no_username = map_of [(''go_api_password'', ''secret''), (''sql_conn_string'', ''Server=db'')]"

definition db_ok :: database where
  "db_ok conn sp ps = \<lparr>success = True, error_message = []\<rparr>"

definition hdrs :: "(string \<times> string) list" where
  "hdrs = [(''Content-Type'', ''application/json; charset=UTF-8''), (''X-RequestDigest'', ''0xAB'')]"

definition api_two_level :: api where
  "api_two_level url headers bdy =
     (if guid bdy = Some ''root'' then
        Inr (Content [\<lparr>node_Nm = Some ''Skoler'', node_Id = Some ''a'', node_Cc = Some 2\<rparr>,
                      \<lparr>node_Nm = None, node_Id = Some ''x'', node_Cc = Some 1\<rparr>,
                      \<lparr>node_Nm = Some ''Dagtilbud'', node_Id = Some ''b'', node_Cc = None\<rparr>])
      else if guid bdy = Some ''a'' then
        Inr (Content [\<lparr>node_Nm = Some ''Nord'', node_Id = Some ''a1'', node_Cc = Some 0\<rparr>,
                      \<lparr>node_Nm = Some ''Syd'', node_Id = Some ''a2'', node_Cc = Some 0\<rparr>])
      else Inl ''404 Client Error'')"

definition api_child_fails :: api where
  "api_child_fails url headers bdy =
     (if guid bdy = Some ''root'' then
        Inr (Content [\<lparr>node_Nm = Some ''Skoler'', node_Id = Some ''a'', node_Cc = Some 1\<rparr>])
      else Inl ''503 Server Error'')"

definition tree_two_level :: term_dict where
  "tree_two_level =
     TermDict [(''Id'', Some ''root'')]
       (Some [TermDict [(''Name'', Some ''Skoler''), (''Id'', Some ''a''), (''ParentId'', Some ''root'')]
                (Some [TermDict [(''Name'', Some ''Nord''), (''Id'', Some ''a1''), (''ParentId'', Some ''a'')] None,
                       TermDict [(''Name'', Some ''Syd''), (''Id'', Some ''a2''), (''ParentId'', Some ''a'')] None]),
              TermDict [(''Name'', Some ''Dagtilbud''), (''Id'', Some ''b''), (''ParentId'', Some ''root'')] None])"

definition term_url :: string where
  "term_url = ''https://go/emnesager/_vti_bin/taxonomyinternalservice.json/GetChildTermsInTermWithPaging''"

definition tree_four :: term_dict where
  "tree_four =
     TermDict [(''Name'', Some ''A''), (''Id'', Some ''a''), (''ParentId'', Some ''root'')]
       (Some [TermDict [(''Name'', Some ''B''), (''Id'', Some ''b''), (''ParentId'', Some ''a'')]
                (Some [TermDict [(''Name'', Some ''D''), (''Id'', Some ''d''), (''ParentId'', Some ''b'')] None]),
              TermDict [(''Name'', Some ''C''), (''Id'', Some ''c''), (''ParentId'', Some ''a'')] None])"

definition db_fails_on_b :: database where
  "db_fails_on_b conn sp ps =
     (if (''uuid'', ''str'', ''b'') \<in> set ps
      then \<lparr>success = False, error_message = ''deadlock victim''\<rparr>
      else \<lparr>success = True, error_message = []\<rparr>)"

definition upsert :: "string \<Rightarrow> string \<Rightarrow> string \<Rightarrow> effect" where
  "upsert name uuid parent =
     Execute ''Server=db'' ''rpa.GO_Departments_Insert''
       [(''name'', ''str'', name), (''uuid'', ''str'', uuid), (''parent_uuid'', ''str'', parent),
        (''term_set_uuid'', ''str'', ''ts'')]"

definition creds_all :: "string \<rightharpoonup> string" where
  "creds_all = map_of [(''go_api_username'', ''robot''), (''go_api_password'', ''secret''),
                       (''sql_conn_string'', ''Server=db'')]"

definition digest_ok :: digest_page where
  "digest_ok url = Inr (Some ''0xAB'')"



section \<open>Serialisation and the sort key\<close>















section \<open>The retry loop and the permit\<close>

lemma attempt_loop_success:
  "attempt \<le> MAX_RETRIES cfg \<Longrightarrow> wq dat ref attempt = None \<Longrightarrow>
   attempt_loop cfg wq dat ref attempt =
     ([AddItem dat ref, Log INFO ''Added item to queue with reference: %s'' [AStr ref]], Some True)"
  by (subst attempt_loop.simps) simp

lemma attempt_loop_exhausted:
  "wq dat ref (MAX_RETRIES cfg) = Some e \<Longrightarrow>
   attempt_loop cfg wq dat ref (MAX_RETRIES cfg) =
     ([AddItem dat ref,
       Log ERROR ''Failed to add item %s after %d attempts: %s''
         [AStr ref, AInt (MAX_RETRIES cfg), AStr e]], Some False)"
  by (subst attempt_loop.simps) simp

lemma attempt_loop_retry:
  "attempt < MAX_RETRIES cfg \<Longrightarrow> wq dat ref attempt \<noteq> None \<Longrightarrow>
   attempt_loop cfg wq dat ref attempt =
     (retry_block cfg wq dat ref attempt @ fst (attempt_loop cfg wq dat ref (attempt + 1)),
      snd (attempt_loop cfg wq dat ref (attempt + 1)))"
  by (subst attempt_loop.simps) (auto simp: retry_block_def raised_def Let_def split: prod.splits)

lemma attempt_loop_retries:
  "k < MAX_RETRIES cfg \<Longrightarrow> a \<le> k + 1 \<Longrightarrow> \<forall>i. a \<le> i \<and> i \<le> k \<longrightarrow> wq dat ref i \<noteq> None \<Longrightarrow>
   attempt_loop cfg wq dat ref a =
     (concat (map (retry_block cfg wq dat ref) [a..k]) @ fst (attempt_loop cfg wq dat ref (k + 1)),
      snd (attempt_loop cfg wq dat ref (k + 1)))"
proof (induction "nat (k + 1 - a)" arbitrary: a)
  case 0
  then have "a = k + 1" by simp
  then show ?case by simp
next
  case (Suc n)
  then have ak: "a \<le> k" by simp
  have n: "n = nat (k + 1 - (a + 1))" using Suc(2) by simp
  have fails: "\<forall>i. a + 1 \<le> i \<and> i \<le> k \<longrightarrow> wq dat ref i \<noteq> None" using Suc(5) by simp
  have step: "attempt_loop cfg wq dat ref a =
     (retry_block cfg wq dat ref a @ fst (attempt_loop cfg wq dat ref (a + 1)),
      snd (attempt_loop cfg wq dat ref (a + 1)))"
    using ak Suc(3,5) by (intro attempt_loop_retry) auto
  have up: "[a..k] = a # [a + 1..k]" using ak by (simp add: upto_rec1)
  have ak1: "a + 1 \<le> k + 1" using ak by simp
  show ?case
    unfolding step up using Suc(1)[OF n Suc(3) ak1 fails] by simp
qed

lemma attempt_loop_attempts:
  "length (filter is_add_item (fst (attempt_loop cfg wq dat ref a))) \<le> nat (MAX_RETRIES cfg + 1 - a)"
proof (induction cfg wq dat ref a rule: attempt_loop.induct)
  case (1 cfg wq dat ref attempt)
  show ?case
  proof (cases "attempt > MAX_RETRIES cfg")
    case True
    then show ?thesis by (subst attempt_loop.simps) simp
  next
    case False
    note le = this
    show ?thesis
    proof (cases "wq dat ref attempt")
      case None
      with le show ?thesis by (subst attempt_loop.simps) simp
    next
      case (Some e)
      show ?thesis
      proof (cases "attempt \<ge> MAX_RETRIES cfg")
        case True
        with le Some show ?thesis by (subst attempt_loop.simps) simp
      next
        case False
        with le Some 1[OF le Some False refl] show ?thesis
          by (subst attempt_loop.simps) (auto simp: Let_def split: prod.splits)
      qed
    qed
  qed
qed

lemma attempt_loop_no_sem:
  "filter is_sem (fst (attempt_loop cfg wq dat ref a)) = []"
proof (induction cfg wq dat ref a rule: attempt_loop.induct)
  case (1 cfg wq dat ref attempt)
  show ?case
  proof (cases "attempt > MAX_RETRIES cfg")
    case True
    then show ?thesis by (subst attempt_loop.simps) simp
  next
    case False
    note le = this
    show ?thesis
    proof (cases "wq dat ref attempt")
      case None
      with le show ?thesis by (subst attempt_loop.simps) simp
    next
      case (Some e)
      show ?thesis
      proof (cases "attempt \<ge> MAX_RETRIES cfg")
        case True
        with le Some show ?thesis by (subst attempt_loop.simps) simp
      next
        case False
        with le Some 1[OF le Some False refl] show ?thesis
          by (subst attempt_loop.simps) (auto simp: Let_def split: prod.splits)
      qed
    qed
  qed
qed

lemma permit_held_no_sem:
  "filter is_sem es = [] \<Longrightarrow>
   permit_at_sleeps held (es @ [SemRelease]) = replicate (length (filter is_sleep es)) held"
proof (induction es)
  case Nil
  show ?case by simp
next
  case (Cons e es)
  then show ?case by (cases e) (simp_all split: if_splits)
qed

lemma attempt_loop_starts:
  "a \<le> MAX_RETRIES cfg \<Longrightarrow> \<exists>rest. fst (attempt_loop cfg wq dat ref a) = AddItem dat ref # rest"
  by (subst attempt_loop.simps) (auto simp: Let_def split: prod.splits option.splits)

lemma add_one_events:
  "add_one cfg wq it =
     (SemAcquire # fst (attempt_loop cfg wq (item_data it) (reference it) 1) @ [SemRelease],
      snd (attempt_loop cfg wq (item_data it) (reference it) 1))"
  by (simp add: add_one_def Let_def split: prod.splits)

text \<open>
  Claim C4. With \<open>MAX_RETRIES \<ge> 1\<close>, for an item whose first \<open>k\<close> calls of
  \<open>add_item\<close> fail: each failed attempt \<open>i\<close> with \<open>i \<le> k\<close> and \<open>i < MAX_RETRIES\<close> is
  followed by a sleep of \<open>RETRY_BASE_DELAY * 2 ^ (i - 1)\<close> and then by attempt
  \<open>i + 1\<close>; there are never more than \<open>MAX_RETRIES\<close> calls; and when all
  \<open>MAX_RETRIES\<close> attempts fail, the last one is followed by the error log with the
  reference, the attempt count and the exception, by the release of the permit and by
  nothing else, and the task returns \<open>False\<close>.
\<close>

theorem backoff_schedule:
  assumes M: "1 \<le> MAX_RETRIES cfg" and k: "0 \<le> k"
    and fails: "\<forall>i. 1 \<le> i \<and> i \<le> k \<longrightarrow> wq (item_data it) (reference it) i \<noteq> None"
  shows "(\<exists>rest. fst (add_one cfg wq it) =
            SemAcquire # concat (map (retry_block cfg wq (item_data it) (reference it))
                                     [1..min k (MAX_RETRIES cfg - 1)])
              @ AddItem (item_data it) (reference it) # rest)
       \<and> length (filter is_add_item (fst (add_one cfg wq it))) \<le> nat (MAX_RETRIES cfg)
       \<and> (MAX_RETRIES cfg \<le> k \<longrightarrow>
            add_one cfg wq it =
              (SemAcquire # concat (map (retry_block cfg wq (item_data it) (reference it))
                                        [1..MAX_RETRIES cfg - 1])
                 @ [AddItem (item_data it) (reference it),
                    Log ERROR ''Failed to add item %s after %d attempts: %s''
                      [AStr (reference it), AInt (MAX_RETRIES cfg),
                       AStr (raised wq (item_data it) (reference it) (MAX_RETRIES cfg))],
                    SemRelease],
               Some False))"
proof (intro conjI impI)
  let ?dat = "item_data it" and ?ref = "reference it"
  let ?k = "min k (MAX_RETRIES cfg - 1)"
  have lt: "?k < MAX_RETRIES cfg" by simp
  have a1: "1 \<le> ?k + 1" using M k by simp
  have f: "\<forall>i. 1 \<le> i \<and> i \<le> ?k \<longrightarrow> wq ?dat ?ref i \<noteq> None" using fails by simp
  note pre = attempt_loop_retries[of ?k cfg 1 wq ?dat ?ref, OF lt a1 f]
  have "?k + 1 \<le> MAX_RETRIES cfg" by simp
  from attempt_loop_starts[OF this] obtain rest where
    "fst (attempt_loop cfg wq ?dat ?ref (?k + 1)) = AddItem ?dat ?ref # rest" by blast
  then show "\<exists>rest. fst (add_one cfg wq it) =
            SemAcquire # concat (map (retry_block cfg wq ?dat ?ref) [1..?k]) @ AddItem ?dat ?ref # rest"
    by (simp add: add_one_events pre)
  show "length (filter is_add_item (fst (add_one cfg wq it))) \<le> nat (MAX_RETRIES cfg)"
    using attempt_loop_attempts[of cfg wq ?dat ?ref 1] by (simp add: add_one_events)
  assume Mk: "MAX_RETRIES cfg \<le> k"
  then have km: "?k = MAX_RETRIES cfg - 1" by simp
  from fails M Mk obtain e where e: "wq ?dat ?ref (MAX_RETRIES cfg) = Some e" by auto
  have "attempt_loop cfg wq ?dat ?ref 1 =
      (concat (map (retry_block cfg wq ?dat ?ref) [1..MAX_RETRIES cfg - 1])
         @ fst (attempt_loop cfg wq ?dat ?ref (MAX_RETRIES cfg)),
       snd (attempt_loop cfg wq ?dat ?ref (MAX_RETRIES cfg)))"
    using pre unfolding km by simp
  then show "add_one cfg wq it =
              (SemAcquire # concat (map (retry_block cfg wq ?dat ?ref) [1..MAX_RETRIES cfg - 1])
                 @ [AddItem ?dat ?ref,
                    Log ERROR ''Failed to add item %s after %d attempts: %s''
                      [AStr ?ref, AInt (MAX_RETRIES cfg), AStr (raised wq ?dat ?ref (MAX_RETRIES cfg))],
                    SemRelease],
               Some False)"
    by (simp add: add_one_events attempt_loop_exhausted[of wq ?dat ?ref cfg e, OF e] raised_def e)
qed

text \<open>
  Three attempts that all fail, with a base delay of half a second: sleeps of 0.5 and
  1, then the error log.
\<close>

theorem backoff_schedule_witness:
  "1 \<le> MAX_RETRIES cfg3 \<and> (0::int) \<le> 3
   \<and> wq_always_fails (item_data item_departments) (reference item_departments) 1 \<noteq> None
   \<and> wq_always_fails (item_data item_departments) (reference item_departments) 2 \<noteq> None
   \<and> wq_always_fails (item_data item_departments) (reference item_departments) 3 \<noteq> None
   \<and> MAX_RETRIES cfg3 \<le> 3
   \<and> add_one cfg3 wq_always_fails item_departments =
       ([SemAcquire,
         AddItem (item_data item_departments) (reference item_departments),
         Log WARNING ''Error adding %s (attempt %d/%d). Retrying in %.2fs... %s''
           [AStr (reference item_departments), AInt 1, AInt 3, AReal (1 / 2), AStr ''timed out''],
         Sleep (1 / 2),
         AddItem (item_data item_departments) (reference item_departments),
         Log WARNING ''Error adding %s (attempt %d/%d). Retrying in %.2fs... %s''
           [AStr (reference item_departments), AInt 2, AInt 3, AReal 1, AStr ''timed out''],
         Sleep 1,
         AddItem (item_data item_departments) (reference item_departments),
         Log ERROR ''Failed to add item %s after %d attempts: %s''
           [AStr (reference item_departments), AInt 3, AStr ''timed out''],
         SemRelease], Some False)
   \<and> length (filter is_add_item (fst (add_one cfg3 wq_always_fails item_departments))) \<le> 3"
proof -
  have M: "1 \<le> MAX_RETRIES cfg3" by (simp add: cfg3_def)
  have k: "(0::int) \<le> 3" by simp
  have f: "\<forall>i. 1 \<le> i \<and> i \<le> 3 \<longrightarrow>
         wq_always_fails (item_data item_departments) (reference item_departments) i \<noteq> None"
    by (simp add: wq_always_fails_def)
  have up: "[1..2::int] = [1, 2]" by (simp add: upto.simps)
  show ?thesis
    using backoff_schedule[of cfg3 3 wq_always_fails item_departments, OF M k f] M
    by (simp add: cfg3_def up retry_block_def raised_def wq_always_fails_def)
qed

text \<open>
  Claim C1, as the code has it. A task takes the permit once, before its first attempt,
  and gives it back once, as its last event, when the item has succeeded or has used
  up its retries; in between it neither takes nor releases it, so every backoff sleep
  of the task happens while it holds the permit.
\<close>

theorem permit_held_until_item_done:
  "\<exists>body. fst (add_one cfg wq it) = SemAcquire # body @ [SemRelease]
        \<and> filter is_sem body = []
        \<and> permit_at_sleeps False (fst (add_one cfg wq it))
            = replicate (length (filter is_sleep body)) True"
proof -
  let ?body = "fst (attempt_loop cfg wq (item_data it) (reference it) 1)"
  have "filter is_sem ?body = []" by (rule attempt_loop_no_sem)
  then show ?thesis
    by (intro exI[of _ ?body]) (simp add: add_one_events permit_held_no_sem)
qed

text \<open>
  Claim C1 as stated says that no sleep happens while the permit is held. With three
  retries and a queue whose first call fails, the task sleeps half a second between its
  two attempts and holds the permit then.
\<close>

theorem sleeps_holding_permit_counterexample:
  "\<not> never_sleeps_holding False (fst (add_one cfg3 wq_first_fails item_departments))"
  by (simp add: add_one_def attempt_loop.simps cfg3_def wq_first_fails_def Let_def)

text \<open>
  Claim C8, as the code has it. An empty batch starts no task, so it makes no call of
  \<open>add_item\<close> and takes no permit; it logs \<open>No new items to add.\<close> and returns
  \<open>None\<close>, and no summary is logged.
\<close>

theorem empty_batch_is_noop:
  "concurrent_add cfg wq []
     = \<lparr>log = [Log INFO ''No new items to add.'' []], tasks = [], returned = None\<rparr>
   \<and> filter is_add_item (log (concurrent_add cfg wq []) @ concat (map fst (tasks (concurrent_add cfg wq [])))) = []
   \<and> filter is_sem (log (concurrent_add cfg wq []) @ concat (map fst (tasks (concurrent_add cfg wq [])))) = []
   \<and> filter is_summary (log (concurrent_add cfg wq [])) = []"
  by (simp add: concurrent_add_def)

text \<open>
  Claim C8 as stated says that the empty batch returns the summary \<open>{0, 0, 0}\<close>. It
  neither returns it nor logs it.
\<close>

theorem empty_batch_summary_counterexample:
  "returned (concurrent_add cfg3 wq_first_fails []) \<noteq> Some (0, 0, 0)
   \<and> Log INFO ''Summary: %d succeeded, %d failed out of %d'' [AInt 0, AInt 0, AInt 0]
        \<notin> set (log (concurrent_add cfg3 wq_first_fails []))"
  by (simp add: concurrent_add_def)


section \<open>The paginated fetch\<close>

lemma endpoint_of_nonempty: "base_url @ endpoint_of case_type @ h \<noteq> []"
  by (simp add: endpoint_of_def)

lemma full_url_of_nonempty: "full_url_of base_url case_type view_id \<noteq> []"
  by (simp add: full_url_of_def endpoint_of_def)

lemma fetch_data_scripted_ok:
  "fetch_data scripted (ok_page p # rs) url = (Inr p, rs)"
  by (simp add: fetch_data_def ok_page_def)

lemma while_next_url_last:
  assumes "url \<noteq> []" "NextHref l = None"
  shows "while_next_url scripted base_url endpoint (Some url) all_rows out (ok_page l # rest) =
         Some (Inr (all_rows @ rows_of l), out @ [Post url, Print (''Fetched data from: '' @ url)], rest)"
  using assms
  by (subst while_next_url.simps, simp add: fetch_data_scripted_ok rows_of_def,
      subst while_next_url.simps, simp)

lemma while_next_url_pages:
  assumes "\<forall>p\<in>set ps. NextHref p \<noteq> None" "NextHref l = None" "url \<noteq> []"
  shows "\<exists>out'. while_next_url scripted base_url (endpoint_of ct) (Some url) all_rows out
                  (map ok_page ps @ ok_page l # rest)
               = Some (Inr (all_rows @ concat (map rows_of (ps @ [l]))), out', rest)
             \<and> posts out' = posts out @ url # cursor_urls base_url (endpoint_of ct) ps"
  using assms
proof (induction ps arbitrary: url all_rows out)
  case Nil
  have p: "posts (xs @ [Post u, Print m]) = posts xs @ [u]" for xs u m
    by (induction xs rule: posts.induct) simp_all
  show ?case
    using while_next_url_last[OF Nil(3) Nil(2)] by (simp add: cursor_urls_def p)
next
  case (Cons p ps)
  from Cons(2) obtain h where h: "NextHref p = Some h" by auto
  let ?url = "base_url @ endpoint_of ct @ h"
  have ne: "?url \<noteq> []" by (rule endpoint_of_nonempty)
  have all: "\<forall>p\<in>set ps. NextHref p \<noteq> None" using Cons(2) by simp
  have pp: "posts (xs @ [Post u, Print m]) = posts xs @ [u]" for xs u m
    by (induction xs rule: posts.induct) simp_all
  from Cons(1)[OF all Cons(3) ne, of "all_rows @ rows_of p" "out @ [Post url, Print (''Fetched data from: '' @ url)]"]
  obtain out' where
    run: "while_next_url scripted base_url (endpoint_of ct) (Some ?url) (all_rows @ rows_of p)
            (out @ [Post url, Print (''Fetched data from: '' @ url)]) (map ok_page ps @ ok_page l # rest)
          = Some (Inr ((all_rows @ rows_of p) @ concat (map rows_of (ps @ [l]))), out', rest)"
    and po: "posts out' = posts (out @ [Post url, Print (''Fetched data from: '' @ url)])
                           @ ?url # cursor_urls base_url (endpoint_of ct) ps"
    by blast
  have step: "while_next_url scripted base_url (endpoint_of ct) (Some url) all_rows out
                (map ok_page (p # ps) @ ok_page l # rest)
            = while_next_url scripted base_url (endpoint_of ct) (Some ?url) (all_rows @ rows_of p)
                (out @ [Post url, Print (''Fetched data from: '' @ url)]) (map ok_page ps @ ok_page l # rest)"
    using Cons(4) by (subst while_next_url.simps) (simp add: fetch_data_scripted_ok h rows_of_def)
  show ?case
    unfolding step using run po by (simp add: cursor_urls_def h pp)
qed

text \<open>
  Claim C3. Against a server that answers with the pages \<open>ps\<close>, each with a
  \<open>NextHref\<close>, then with a page \<open>l\<close> without one, then with anything: the loop
  posts the first URL and then the URL of each cursor, once each and in order; it
  stops after \<open>l\<close>, leaving the rest of the responses unread; and it returns the rows of
  all pages in page order. The pages are arbitrary otherwise: a page with few rows, or
  none, or no \<open>Row\<close> key, does not end the loop.
\<close>

theorem pagination_follows_cursors:
  assumes "\<forall>p\<in>set ps. NextHref p \<noteq> None" and "NextHref l = None"
  shows "\<exists>out. while_next_url scripted base_url (endpoint_of case_type)
                  (Some (full_url_of base_url case_type view_id)) [] []
                  (map ok_page ps @ ok_page l # rest)
               = Some (Inr (concat (map rows_of (ps @ [l]))), out, rest)
             \<and> posts out = full_url_of base_url case_type view_id
                            # cursor_urls base_url (endpoint_of case_type) ps"
  using while_next_url_pages[OF assms full_url_of_nonempty, where all_rows="[]" and out="[]"]
  by simp

text \<open>
  Three pages, the second without rows, and a fourth response that is never asked for.
\<close>

theorem pagination_follows_cursors_witness:
  "NextHref page_one \<noteq> None \<and> NextHref page_two \<noteq> None \<and> NextHref page_three = None
   \<and> (\<exists>out. while_next_url scripted ''https://go'' (endpoint_of ''emnesager'')
                (Some (full_url_of ''https://go'' ''emnesager'' ''v'')) [] []
                [ok_page page_one, ok_page page_two, ok_page page_three, ok_page page_one]
              = Some (Inr [[(''ID'', ''1''), (''Title'', ''Skole'')], [(''ID'', ''3'')], [(''ID'', ''4'')]],
                      out, [ok_page page_one])
            \<and> posts out =
                [full_url_of ''https://go'' ''emnesager'' ''v'',
                 ''https://go'' @ endpoint_of ''emnesager'' @ ''?Paged=TRUE&p_ID=1&View=v'',
                 ''https://go'' @ endpoint_of ''emnesager'' @ ''?Paged=TRUE&p_ID=2&View=v''])"
proof -
  have a: "\<forall>p\<in>set [page_one, page_two]. NextHref p \<noteq> None"
    by (simp add: page_one_def page_two_def)
  have b: "NextHref page_three = None" by (simp add: page_three_def)
  have r: "concat (map rows_of ([page_one, page_two] @ [page_three]))
           = [[(''ID'', ''1''), (''Title'', ''Skole'')], [(''ID'', ''3'')], [(''ID'', ''4'')]]"
    by (simp add: rows_of_def page_one_def page_two_def page_three_def)
  have c: "cursor_urls ''https://go'' (endpoint_of ''emnesager'') [page_one, page_two]
           = [''https://go'' @ endpoint_of ''emnesager'' @ ''?Paged=TRUE&p_ID=1&View=v'',
              ''https://go'' @ endpoint_of ''emnesager'' @ ''?Paged=TRUE&p_ID=2&View=v'']"
    by (simp add: cursor_urls_def page_one_def page_two_def)
  show ?thesis
    using pagination_follows_cursors[OF a b, of "''https://go''" "''emnesager''" "''v''" "[ok_page page_one]"]
    unfolding r c using a b by simp
qed

lemma fetch_data_exn:
  "fetch_data session s url = (Inl e, s') \<Longrightarrow> (\<exists>m. handler e = Some [Print m])"
  by (auto simp: fetch_data_def split: prod.splits sum.splits if_splits)

lemma while_next_url_out:
  assumes run: "while_next_url session base_url endpoint next_url all_rows out s = Some y"
  shows "(filter is_execute out = [] \<longrightarrow> filter is_execute (fst (snd y)) = [])
   \<and> (\<forall>e. fst y = Inl e \<longrightarrow> (\<exists>m. handler e = Some [Print m]))"
proof (rule while_next_url.raw_induct
    [where P = "\<lambda>session base_url endpoint next_url all_rows out s y.
       (filter is_execute out = [] \<longrightarrow> filter is_execute (fst (snd y)) = [])
       \<and> (\<forall>e. fst y = Inl e \<longrightarrow> (\<exists>m. handler e = Some [Print m]))", OF _ run])
  fix f :: "'a session \<Rightarrow> string \<Rightarrow> string \<Rightarrow> string option \<Rightarrow> row list \<Rightarrow> effect list \<Rightarrow> 'a
     \<Rightarrow> ((exn + row list) \<times> effect list \<times> 'a) option"
  fix session :: "'a session" and base_url endpoint :: string and next_url all_rows out
    and s :: 'a and y
  assume IH: "\<And>session base_url endpoint next_url all_rows out s y.
        f session base_url endpoint next_url all_rows out s = Some y \<Longrightarrow>
        (filter is_execute out = [] \<longrightarrow> filter is_execute (fst (snd y)) = [])
        \<and> (\<forall>e. fst y = Inl e \<longrightarrow> (\<exists>m. handler e = Some [Print m]))"
  assume body: "(case next_url of None \<Rightarrow> Some (Inr all_rows, out, s)
      | Some url \<Rightarrow>
          if url = [] then Some (Inr all_rows, out, s)
          else case fetch_data session s url of
               (Inl e, s') \<Rightarrow> Some (Inl e, out @ [Post url], s')
               | (Inr json_data, s') \<Rightarrow>
                   f session base_url endpoint
                    (case NextHref json_data of None \<Rightarrow> None
                     | Some href \<Rightarrow> Some (base_url @ endpoint @ href))
                    (all_rows @ (case Row json_data of None \<Rightarrow> [] | Some rows \<Rightarrow> rows))
                    (out @ [Post url, Print (''Fetched data from: '' @ url)])
                    s') = Some y"
  show "(filter is_execute out = [] \<longrightarrow> filter is_execute (fst (snd y)) = [])
        \<and> (\<forall>e. fst y = Inl e \<longrightarrow> (\<exists>m. handler e = Some [Print m]))"
  proof (cases next_url)
    case None
    with body show ?thesis by auto
  next
    case (Some url)
    show ?thesis
    proof (cases "url = []")
      case True
      with Some body show ?thesis by auto
    next
      case False
      obtain r s' where fd: "fetch_data session s url = (r, s')" by (cases "fetch_data session s url")
      show ?thesis
      proof (cases r)
        case (Inl e)
        with Some False fd body fetch_data_exn[of session s url e s'] show ?thesis by auto
      next
        case (Inr json_data)
        with Some False fd body have
          "f session base_url endpoint
             (case NextHref json_data of None \<Rightarrow> None | Some href \<Rightarrow> Some (base_url @ endpoint @ href))
             (all_rows @ (case Row json_data of None \<Rightarrow> [] | Some rows \<Rightarrow> rows))
             (out @ [Post url, Print (''Fetched data from: '' @ url)]) s' = Some y"
          by simp
        from IH[OF this] show ?thesis by simp
      qed
    qed
  qed
qed

text \<open>
  When a page cannot be fetched or decoded, the error is printed, nothing is executed
  on the database, and no exception leaves the function.
\<close>

lemma fetch_failure_inserts_nothing:
  assumes "credentials ''go_api_username'' \<noteq> None" "credentials ''go_api_password'' \<noteq> None"
    and "while_next_url session base_url (endpoint_of case_type)
           (Some (full_url_of base_url case_type view_id)) [] [] s = Some (Inl e, out, s')"
  shows "\<exists>m. get_taxononmy session db credentials case_type view_id base_url s
               = Some (None, out @ [Print m], s')
            \<and> filter is_execute (out @ [Print m]) = []"
proof -
  from while_next_url_out[OF assms(3)] obtain m where
    "handler e = Some [Print m]" "filter is_execute out = []" by auto
  then show ?thesis
    using assms by (auto simp: get_taxononmy_def)
qed

lemma missing_conn_string_inserts_nothing:
  assumes "credentials ''go_api_username'' \<noteq> None" "credentials ''go_api_password'' \<noteq> None"
    and "credentials ''sql_conn_string'' = None"
    and "while_next_url session base_url (endpoint_of case_type)
           (Some (full_url_of base_url case_type view_id)) [] [] s = Some (Inr rows, out, s')"
  shows "\<exists>m. get_taxononmy session db credentials case_type view_id base_url s
               = Some (None, out @ [Print m], s')
            \<and> filter is_execute (out @ [Print m]) = []"
proof -
  from while_next_url_out[OF assms(4)] have "filter is_execute out = []" by auto
  then show ?thesis
    using assms by (auto simp: get_taxononmy_def)
qed






text \<open>
  The two credentials of the session are read before the \<open>try\<close>: a dictionary
  without them would make the \<open>KeyError\<close> leave \<open>get_taxononmy\<close>. \<open>process_item\<close>,
  the caller, always passes a dictionary with all three keys.
\<close>

lemma missing_session_key_raises:
  "get_taxononmy scripted db_ok creds_no_username ''emnesager'' ''v'' ''https://go''
     [ok_page page_three]
   = Some (Some (KeyError ''go_api_username''), [], [ok_page page_three])"
  by (simp add: get_taxononmy_def creds_no_username_def)


section \<open>The term tree that is returned\<close>

lemma guids_append: "guids (xs @ ys) = guids xs @ guids ys"
  by (induction xs rule: guids.induct) simp_all

lemma post_data_guids:
  "post_data api_client url headers bdy = (r, es) \<Longrightarrow> guids es = [guid bdy]"
  by (auto simp: post_data_def split: sum.splits)

lemma get_child_terms_shape:
  assumes "get_child_terms fuel api_client headers parent_uuid ts base_url ct = (Return (Some t), es)"
  shows "\<exists>chs. t = TermDict [(''Id'', parent_uuid)] (Some chs)"
proof (cases fuel)
  case 0
  with assms show ?thesis by simp
next
  case (Suc n)
  with assms show ?thesis
    by (auto split: prod.splits option.splits tx_json.splits outcome.splits)
qed

lemma get_child_terms_guids:
  "get_child_terms fuel api_client headers parent_uuid ts base_url ct = (Return (Some t), es)
     \<Longrightarrow> guids es = expanded t"
  "for_node_in n api_client headers parent_uuid ts base_url ct content = (Return chs, es')
     \<Longrightarrow> guids es' = concat (map expanded chs)"
proof (induction fuel api_client headers parent_uuid ts base_url ct
         and n api_client headers parent_uuid ts base_url ct content
       arbitrary: t es and chs es' rule: get_child_terms_for_node_in.induct)
  case (1 api_client headers parent_uuid term_set_uuid base_url case_type)
  then show ?case by simp
next
  case (2 n api_client headers parent_uuid term_set_uuid base_url case_type)
  obtain r es0 where pd: "post_data api_client (request_url parent_uuid base_url case_type) headers
             (request_body parent_uuid term_set_uuid) = (r, es0)"
    by (cases "post_data api_client (request_url parent_uuid base_url case_type) headers
             (request_body parent_uuid term_set_uuid)")
  from 2(2) pd obtain content where r: "r = Some (Content content)"
    by (auto split: option.splits tx_json.splits)
  obtain o1 es1 where fn: "for_node_in n api_client headers parent_uuid term_set_uuid base_url case_type content = (o1, es1)"
    by (cases "for_node_in n api_client headers parent_uuid term_set_uuid base_url case_type content")
  from 2(2) pd r fn obtain chs where o1: "o1 = Return chs"
    and t: "t = TermDict [(''Id'', parent_uuid)] (Some chs)" and es: "es = es0 @ es1"
    by (auto split: outcome.splits)
  have "guids es1 = concat (map expanded chs)"
    using 2(1)[OF pd[symmetric] _ refl, of content chs es1] r fn o1 by simp
  moreover have "guids es0 = [parent_uuid]"
    using post_data_guids[OF pd] by (simp add: request_body_def)
  ultimately show ?case by (simp add: t es guids_append get_def)
next
  case (3 n api_client headers parent_uuid term_set_uuid base_url case_type)
  then show ?case by simp
next
  case (4 n api_client headers parent_uuid term_set_uuid base_url case_type node rest)
  show ?case
  proof (cases "truthy (node_Nm node) \<and> truthy (node_Id node)")
    case False
    with 4(4)[OF refl refl, of chs es'] 4(5) show ?thesis by (simp add: Let_def)
  next
    case True
    note both = this
    show ?thesis
    proof (cases "declared_children node")
      case False
      obtain o2 es2 where fr: "for_node_in n api_client headers parent_uuid term_set_uuid base_url case_type rest = (o2, es2)"
        by (cases "for_node_in n api_client headers parent_uuid term_set_uuid base_url case_type rest")
      from 4(5) both False fr obtain chs2 where o2: "o2 = Return chs2"
        and chs: "chs = TermDict [(''Name'', node_Nm node), (''Id'', node_Id node), (''ParentId'', parent_uuid)] None # chs2"
        and es: "es' = es2"
        by (auto simp: Let_def split: outcome.splits)
      from 4(3)[OF refl refl both refl False, of chs2 es2] fr o2 have "guids es2 = concat (map expanded chs2)" by simp
      then show ?thesis by (simp add: chs es)
    next
      case True
      obtain o1 es1 where gc: "get_child_terms n api_client headers (node_Id node) term_set_uuid base_url case_type = (o1, es1)"
        by (cases "get_child_terms n api_client headers (node_Id node) term_set_uuid base_url case_type")
      from 4(5) both True gc obtain sub where o1: "o1 = Return (Some sub)"
        by (auto simp: Let_def split: outcome.splits option.splits)
      from get_child_terms_shape[OF gc[unfolded o1]] obtain grand where
        sub: "sub = TermDict [(''Id'', node_Id node)] (Some grand)" by blast
      obtain o2 es2 where fr: "for_node_in n api_client headers parent_uuid term_set_uuid base_url case_type rest = (o2, es2)"
        by (cases "for_node_in n api_client headers parent_uuid term_set_uuid base_url case_type rest")
      from 4(5) both True gc o1 sub fr obtain chs2 where o2: "o2 = Return chs2"
        and chs: "chs = TermDict [(''Name'', node_Nm node), (''Id'', node_Id node), (''ParentId'', parent_uuid)] (Some grand) # chs2"
        and es: "es' = es1 @ es2"
        by (auto simp: Let_def split: outcome.splits)
      have g1: "guids es1 = expanded sub"
        using 4(1)[OF refl refl both refl True, of sub es1] gc o1 by simp
      have g2: "guids es2 = concat (map expanded chs2)"
        using 4(2)[OF refl refl both refl True gc[symmetric], of "Some sub" sub grand chs2 es2] o1 sub fr o2 by simp
      show ?thesis by (simp add: chs es guids_append g1 g2 sub get_def)
    qed
  qed
qed

lemma for_node_in_children:
  "for_node_in n api_client headers parent_uuid ts base_url ct content = (Return chs, es) \<Longrightarrow>
   map fields chs
     = map (\<lambda>node. [(''Name'', node_Nm node), (''Id'', node_Id node), (''ParentId'', parent_uuid)])
         (filter carries_both content)
   \<and> list_all2 (\<lambda>node child.
         if declared_children node
         then (\<exists>sub es'. get_child_terms n api_client headers (node_Id node) ts base_url ct
                            = (Return (Some sub), es')
                        \<and> children sub \<noteq> None \<and> children child = children sub)
         else children child = None)
       (filter carries_both content) chs"
proof (induction content arbitrary: chs es)
  case Nil
  then show ?case by simp
next
  case (Cons node rest)
  show ?case
  proof (cases "carries_both node")
    case False
    then have nb: "\<not> (truthy (node_Nm node) \<and> truthy (node_Id node))"
      by (simp add: carries_both_def)
    from Cons(2) nb have "for_node_in n api_client headers parent_uuid ts base_url ct rest = (Return chs, es)"
      by (simp add: Let_def)
    from Cons(1)[OF this] False show ?thesis by simp
  next
    case True
    then have both: "truthy (node_Nm node) \<and> truthy (node_Id node)" by (simp add: carries_both_def)
    obtain o2 es2 where fr: "for_node_in n api_client headers parent_uuid ts base_url ct rest = (o2, es2)"
      by (cases "for_node_in n api_client headers parent_uuid ts base_url ct rest")
    show ?thesis
    proof (cases "declared_children node")
      case False
      from Cons(2) both False fr obtain chs2 where o2: "o2 = Return chs2"
        and chs: "chs = TermDict [(''Name'', node_Nm node), (''Id'', node_Id node), (''ParentId'', parent_uuid)] None # chs2"
        by (auto simp: Let_def split: outcome.splits)
      from Cons(1)[OF fr[unfolded o2]] True False show ?thesis by (simp add: chs)
    next
      case decl: True
      obtain o1 es1 where gc: "get_child_terms n api_client headers (node_Id node) ts base_url ct = (o1, es1)"
        by (cases "get_child_terms n api_client headers (node_Id node) ts base_url ct")
      from Cons(2) both decl gc obtain sub grand where o1: "o1 = Return (Some sub)"
        and grand: "children sub = Some grand"
        by (auto simp: Let_def split: outcome.splits option.splits)
      from Cons(2) both decl gc o1 grand fr obtain chs2 where o2: "o2 = Return chs2"
        and chs: "chs = TermDict [(''Name'', node_Nm node), (''Id'', node_Id node), (''ParentId'', parent_uuid)] (Some grand) # chs2"
        by (auto simp: Let_def split: outcome.splits)
      from Cons(1)[OF fr[unfolded o2]] True decl gc o1 grand show ?thesis by (simp add: chs)
    qed
  qed
qed

text \<open>
  What a returned dictionary looks like, by the content of the answer for its parent.
\<close>

lemma returned_tree_shape:
  assumes "get_child_terms fuel api_client headers parent_uuid term_set_uuid base_url case_type
             = (Return (Some t), es)"
  shows "\<exists>content chs.
           content_of api_client headers parent_uuid term_set_uuid base_url case_type = Some content
         \<and> t = TermDict [(''Id'', parent_uuid)] (Some chs)
         \<and> map fields chs
             = map (\<lambda>node. [(''Name'', node_Nm node), (''Id'', node_Id node), (''ParentId'', parent_uuid)])
                 (filter carries_both content)
         \<and> list_all2 (\<lambda>node child.
               if declared_children node
               then (\<exists>sub es'. get_child_terms (fuel - 1) api_client headers (node_Id node)
                                  term_set_uuid base_url case_type = (Return (Some sub), es')
                              \<and> children sub \<noteq> None \<and> children child = children sub)
               else children child = None)
             (filter carries_both content) chs
         \<and> guids es = expanded t"
proof (cases fuel)
  case 0
  with assms show ?thesis by simp
next
  case (Suc n)
  obtain r es0 where pd: "post_data api_client (request_url parent_uuid base_url case_type) headers
             (request_body parent_uuid term_set_uuid) = (r, es0)"
    by (cases "post_data api_client (request_url parent_uuid base_url case_type) headers
             (request_body parent_uuid term_set_uuid)")
  from assms Suc pd obtain content where r: "r = Some (Content content)"
    by (auto split: option.splits tx_json.splits)
  obtain o1 es1 where fn: "for_node_in n api_client headers parent_uuid term_set_uuid base_url case_type content = (o1, es1)"
    by (cases "for_node_in n api_client headers parent_uuid term_set_uuid base_url case_type content")
  from assms Suc pd r fn obtain chs where o1: "o1 = Return chs"
    and t: "t = TermDict [(''Id'', parent_uuid)] (Some chs)"
    by (auto split: outcome.splits)
  have c: "content_of api_client headers parent_uuid term_set_uuid base_url case_type = Some content"
    by (simp add: content_of_def pd r)
  have n: "n = fuel - 1" using Suc by simp
  note ch = for_node_in_children[OF fn[unfolded o1], unfolded n]
  have g: "guids es = expanded t" using assms by (rule get_child_terms_guids(1))
  show ?thesis
    using c t ch g by blast
qed

lemma two_level_run:
  "get_child_terms 3 api_two_level hdrs (Some ''root'') ''ts'' ''https://go'' ''emnesager''
   = (Return (Some tree_two_level),
      [PostJson term_url hdrs \<lparr>guid = Some ''root'', termsetId = Some ''ts''\<rparr>,
       PostJson term_url hdrs \<lparr>guid = Some ''a'', termsetId = Some ''ts''\<rparr>])"
  by (simp add: eval_nat_numeral api_two_level_def post_data_def request_url_def request_body_def parent_id_bool_def
        declared_children_def tree_two_level_def term_url_def Let_def)


section \<open>The fuel of the tree recursion\<close>

lemma for_node_in_fuel:
  "list_all (\<lambda>node. if carries_both node \<and> declared_children node
                    then fst (get_child_terms n api_client headers (node_Id node) ts base_url ct) \<noteq> OutOfFuel
                    else True) content
   \<Longrightarrow> fst (for_node_in n api_client headers parent_uuid ts base_url ct content) \<noteq> OutOfFuel"
proof (induction content)
  case Nil
  show ?case by simp
next
  case (Cons node rest)
  then have rest: "fst (for_node_in n api_client headers parent_uuid ts base_url ct rest) \<noteq> OutOfFuel"
    by simp
  show ?case
  proof (cases "carries_both node \<and> declared_children node")
    case False
    with rest show ?thesis
      by (auto simp: carries_both_def Let_def split: prod.splits outcome.splits)
  next
    case True
    with Cons(2) have "fst (get_child_terms n api_client headers (node_Id node) ts base_url ct) \<noteq> OutOfFuel"
      by simp
    with True rest show ?thesis
      by (auto simp: carries_both_def Let_def split: prod.splits outcome.splits option.splits)
  qed
qed

lemma get_child_terms_step:
  "fst (get_child_terms (Suc n) api_client headers parent_uuid ts base_url ct) \<noteq> OutOfFuel
   \<longleftrightarrow> (case content_of api_client headers parent_uuid ts base_url ct of
          None \<Rightarrow> True
        | Some content \<Rightarrow> fst (for_node_in n api_client headers parent_uuid ts base_url ct content) \<noteq> OutOfFuel)"
  by (auto simp: content_of_def split: prod.splits option.splits tx_json.splits outcome.splits)

text \<open>
  When the remote tree is at most \<open>n\<close> levels deep, \<open>n + 1\<close> units of fuel are enough:
  the recursion returns or raises.
\<close>

lemma enough_fuel:
  "depth_within n api_client headers parent_uuid ts base_url ct \<Longrightarrow>
   fst (get_child_terms (Suc n) api_client headers parent_uuid ts base_url ct) \<noteq> OutOfFuel"
proof (induction n arbitrary: parent_uuid)
  case 0
  show ?case
  proof (cases "content_of api_client headers parent_uuid ts base_url ct")
    case None
    then show ?thesis by (simp add: get_child_terms_step del: get_child_terms.simps)
  next
    case (Some content)
    with 0 have "list_all (\<lambda>node. \<not> (carries_both node \<and> declared_children node)) content" by simp
    then have "list_all (\<lambda>node. if carries_both node \<and> declared_children node
                    then fst (get_child_terms 0 api_client headers (node_Id node) ts base_url ct) \<noteq> OutOfFuel
                    else True) content"
      by (simp add: list_all_iff)
    from for_node_in_fuel[OF this] Some show ?thesis
      by (simp add: get_child_terms_step del: get_child_terms.simps)
  qed
next
  case (Suc n)
  show ?case
  proof (cases "content_of api_client headers parent_uuid ts base_url ct")
    case None
    then show ?thesis by (simp add: get_child_terms_step del: get_child_terms.simps)
  next
    case (Some content)
    with Suc(2) have "list_all (\<lambda>node. if carries_both node \<and> declared_children node
                          then depth_within n api_client headers (node_Id node) ts base_url ct
                          else True) content" by simp
    then have "list_all (\<lambda>node. if carries_both node \<and> declared_children node
                    then fst (get_child_terms (Suc n) api_client headers (node_Id node) ts base_url ct) \<noteq> OutOfFuel
                    else True) content"
      using Suc(1) by (auto simp: list_all_iff)
    from for_node_in_fuel[OF this] Some show ?thesis
      by (simp add: get_child_terms_step del: get_child_terms.simps)
  qed
qed

text \<open>
  More fuel does not change a run that did not run out of it: the result and the
  effects are those of the source.
\<close>

lemma fuel_mono:
  "fst (get_child_terms n api_client headers parent_uuid ts base_url ct) \<noteq> OutOfFuel \<Longrightarrow>
   get_child_terms (Suc n) api_client headers parent_uuid ts base_url ct
     = get_child_terms n api_client headers parent_uuid ts base_url ct"
  "fst (for_node_in m api_client headers parent_uuid ts base_url ct content) \<noteq> OutOfFuel \<Longrightarrow>
   for_node_in (Suc m) api_client headers parent_uuid ts base_url ct content
     = for_node_in m api_client headers parent_uuid ts base_url ct content"
proof (induction n api_client headers parent_uuid ts base_url ct
         and m api_client headers parent_uuid ts base_url ct content
       rule: get_child_terms_for_node_in.induct)
  case (1 api_client headers parent_uuid term_set_uuid base_url case_type)
  then show ?case by simp
next
  case (2 n api_client headers parent_uuid term_set_uuid base_url case_type)
  obtain r es0 where pd: "post_data api_client (request_url parent_uuid base_url case_type) headers
             (request_body parent_uuid term_set_uuid) = (r, es0)"
    by (cases "post_data api_client (request_url parent_uuid base_url case_type) headers
             (request_body parent_uuid term_set_uuid)")
  show ?case
  proof (cases "\<exists>content. r = Some (Content content)")
    case False
    with pd show ?thesis by (auto split: option.splits tx_json.splits)
  next
    case True
    then obtain content where r: "r = Some (Content content)" by blast
    from 2(2) pd r have "fst (for_node_in n api_client headers parent_uuid term_set_uuid base_url case_type content) \<noteq> OutOfFuel"
      by (auto split: prod.splits outcome.splits)
    from 2(1)[OF pd[symmetric] _ refl this] r
    have "for_node_in (Suc n) api_client headers parent_uuid term_set_uuid base_url case_type content
        = for_node_in n api_client headers parent_uuid term_set_uuid base_url case_type content" by simp
    then show ?thesis
      using pd r by (simp del: for_node_in.simps)
  qed
next
  case (3 n api_client headers parent_uuid term_set_uuid base_url case_type)
  then show ?case by simp
next
  case (4 n api_client headers parent_uuid term_set_uuid base_url case_type node rest)
  note live = 4(5)
  show ?case
  proof (cases "truthy (node_Nm node) \<and> truthy (node_Id node)")
    case False
    then have nb: "(truthy (node_Nm node) \<and> truthy (node_Id node)) = False" by simp
    with live have "fst (for_node_in n api_client headers parent_uuid term_set_uuid base_url case_type rest) \<noteq> OutOfFuel"
      by (simp add: Let_def del: get_child_terms.simps)
    from 4(4)[OF refl refl False this] show ?thesis
      by (simp add: Let_def nb del: get_child_terms.simps)
  next
    case True
    note both = this
    show ?thesis
    proof (cases "declared_children node")
      case False
      with live both have "fst (for_node_in n api_client headers parent_uuid term_set_uuid base_url case_type rest) \<noteq> OutOfFuel"
        by (auto simp: Let_def simp del: get_child_terms.simps split: prod.splits outcome.splits)
      from 4(3)[OF refl refl both refl False this] both False show ?thesis
        by (simp add: Let_def del: get_child_terms.simps)
    next
      case True
      obtain o1 es1 where gc: "get_child_terms n api_client headers (node_Id node) term_set_uuid base_url case_type = (o1, es1)"
        by (cases "get_child_terms n api_client headers (node_Id node) term_set_uuid base_url case_type")
      from live both True gc have o1: "o1 \<noteq> OutOfFuel"
        by (auto simp: Let_def simp del: get_child_terms.simps)
      have E1: "get_child_terms (Suc n) api_client headers (node_Id node) term_set_uuid base_url case_type = (o1, es1)"
        using 4(1)[OF refl refl both refl True] gc o1 by simp
      show ?thesis
      proof (cases "\<exists>sub grand. o1 = Return (Some sub) \<and> children sub = Some grand")
        case False
        with both True gc E1 o1 show ?thesis
          by (cases o1) (auto simp: Let_def simp del: get_child_terms.simps split: option.splits)
      next
        case yes: True
        then obtain sub grand where sub: "o1 = Return (Some sub)" "children sub = Some grand" by blast
        from live both True gc sub have
          "fst (for_node_in n api_client headers parent_uuid term_set_uuid base_url case_type rest) \<noteq> OutOfFuel"
          by (auto simp: Let_def simp del: get_child_terms.simps split: prod.splits outcome.splits)
        from 4(2)[OF refl refl both refl True gc[symmetric] sub(1) refl sub(2) this]
        have E2: "for_node_in (Suc n) api_client headers parent_uuid term_set_uuid base_url case_type rest
            = for_node_in n api_client headers parent_uuid term_set_uuid base_url case_type rest" .
        show ?thesis
          using both True gc E1 sub E2
          by (simp add: Let_def del: get_child_terms.simps)
      qed
    qed
  qed
qed

lemma fuel_mono_add:
  "fst (get_child_terms n api_client headers parent_uuid ts base_url ct) \<noteq> OutOfFuel \<Longrightarrow>
   get_child_terms (n + k) api_client headers parent_uuid ts base_url ct
     = get_child_terms n api_client headers parent_uuid ts base_url ct"
proof (induction k)
  case 0
  show ?case by simp
next
  case (Suc k)
  from Suc have eq: "get_child_terms (n + k) api_client headers parent_uuid ts base_url ct
     = get_child_terms n api_client headers parent_uuid ts base_url ct" by simp
  with Suc(2) have "fst (get_child_terms (n + k) api_client headers parent_uuid ts base_url ct) \<noteq> OutOfFuel"
    by simp
  from fuel_mono(1)[OF this] eq show ?case by simp
qed


section \<open>Trees that are fetched whole\<close>

lemma for_node_in_returns:
  "list_all (\<lambda>node. if carries_both node \<and> declared_children node
                    then (\<exists>sub es. get_child_terms n api_client headers (node_Id node) ts base_url ct
                                     = (Return (Some sub), es))
                    else True) content
   \<Longrightarrow> \<exists>chs es. for_node_in n api_client headers parent_uuid ts base_url ct content = (Return chs, es)"
proof (induction content)
  case Nil
  show ?case by simp
next
  case (Cons node rest)
  then obtain chs es where rest:
    "for_node_in n api_client headers parent_uuid ts base_url ct rest = (Return chs, es)"
    by auto
  show ?case
  proof (cases "carries_both node \<and> declared_children node")
    case False
    with rest show ?thesis
      by (auto simp: carries_both_def Let_def)
  next
    case True
    with Cons(2) obtain sub es1 where
      gc: "get_child_terms n api_client headers (node_Id node) ts base_url ct = (Return (Some sub), es1)"
      by auto
    from get_child_terms_shape[OF gc] obtain grand where "children sub = Some grand" by auto
    with True rest gc show ?thesis
      by (auto simp: carries_both_def Let_def)
  qed
qed

lemma get_child_terms_returns_step:
  assumes "content_of api_client headers parent_uuid ts base_url ct = Some content"
    and "for_node_in n api_client headers parent_uuid ts base_url ct content = (Return chs, es)"
  shows "\<exists>es'. get_child_terms (Suc n) api_client headers parent_uuid ts base_url ct
           = (Return (Some (TermDict [(''Id'', parent_uuid)] (Some chs))), es')"
  using assms
  by (auto simp: content_of_def split: prod.splits option.splits tx_json.splits)

lemma fetches_succeed_returns:
  "fetches_succeed n api_client headers parent_uuid ts base_url ct \<Longrightarrow>
   \<exists>t es. get_child_terms (Suc n) api_client headers parent_uuid ts base_url ct = (Return (Some t), es)"
proof (induction n arbitrary: parent_uuid)
  case 0
  then obtain content where c: "content_of api_client headers parent_uuid ts base_url ct = Some content"
    and l: "list_all (\<lambda>node. \<not> (carries_both node \<and> declared_children node)) content"
    by (auto split: option.splits)
  from l have "list_all (\<lambda>node. if carries_both node \<and> declared_children node
                    then (\<exists>sub es. get_child_terms 0 api_client headers (node_Id node) ts base_url ct
                                     = (Return (Some sub), es))
                    else True) content"
    by (simp add: list_all_iff)
  from for_node_in_returns[OF this] obtain chs es where
    "for_node_in 0 api_client headers parent_uuid ts base_url ct content = (Return chs, es)" by blast
  from get_child_terms_returns_step[OF c this] show ?case by blast
next
  case (Suc n)
  then obtain content where c: "content_of api_client headers parent_uuid ts base_url ct = Some content"
    and l: "list_all (\<lambda>node. if carries_both node \<and> declared_children node
                          then fetches_succeed n api_client headers (node_Id node) ts base_url ct
                          else True) content"
    by (auto split: option.splits)
  from l Suc(1) have "list_all (\<lambda>node. if carries_both node \<and> declared_children node
                    then (\<exists>sub es. get_child_terms (Suc n) api_client headers (node_Id node) ts base_url ct
                                     = (Return (Some sub), es))
                    else True) content"
    by (auto simp: list_all_iff)
  from for_node_in_returns[OF this] obtain chs es where
    "for_node_in (Suc n) api_client headers parent_uuid ts base_url ct content = (Return chs, es)" by blast
  from get_child_terms_returns_step[OF c this] show ?case by blast
qed

text \<open>
  Claim C5. When the request for the parent and the requests for all records below it
  that declare children are answered with content, \<open>_get_child_terms\<close> returns a
  dictionary, with any fuel beyond the depth of the tree. Its children are, in the
  order of the content list, the nodes \<open>{Name, Id, ParentId}\<close> of exactly the
  records with a name and an id. A child whose record declares children carries the
  children of its own recursively fetched tree, the others carry no \<open>Children\<close>
  key. The requests are made in depth-first order: the parent, then for each such
  child in turn its whole subtree, before the next sibling.
\<close>

theorem child_nodes_in_order:
  assumes "fetches_succeed n api_client headers parent_uuid term_set_uuid base_url case_type"
    and "n < fuel"
  shows "\<exists>t es content chs.
           get_child_terms fuel api_client headers parent_uuid term_set_uuid base_url case_type
             = (Return (Some t), es)
         \<and> content_of api_client headers parent_uuid term_set_uuid base_url case_type = Some content
         \<and> t = TermDict [(''Id'', parent_uuid)] (Some chs)
         \<and> map fields chs
             = map (\<lambda>node. [(''Name'', node_Nm node), (''Id'', node_Id node), (''ParentId'', parent_uuid)])
                 (filter carries_both content)
         \<and> list_all2 (\<lambda>node child.
               if declared_children node
               then (\<exists>sub es'. get_child_terms (fuel - 1) api_client headers (node_Id node)
                                  term_set_uuid base_url case_type = (Return (Some sub), es')
                              \<and> children sub \<noteq> None \<and> children child = children sub)
               else children child = None)
             (filter carries_both content) chs
         \<and> guids es = expanded t"
proof -
  from fetches_succeed_returns[OF assms(1)] obtain t es where
    r: "get_child_terms (Suc n) api_client headers parent_uuid term_set_uuid base_url case_type
          = (Return (Some t), es)" by blast
  from assms(2) obtain k where k: "fuel = Suc n + k" by (metis less_iff_Suc_add add_Suc)
  have "get_child_terms (Suc n + k) api_client headers parent_uuid term_set_uuid base_url case_type
          = get_child_terms (Suc n) api_client headers parent_uuid term_set_uuid base_url case_type"
    by (rule fuel_mono_add) (simp add: r del: get_child_terms.simps)
  with r k have "get_child_terms fuel api_client headers parent_uuid term_set_uuid base_url case_type
          = (Return (Some t), es)" by simp
  from returned_tree_shape[OF this] this show ?thesis by blast
qed

text \<open>
  A root with three records: one with two children of its own, one without a name,
  which is skipped, and one leaf.
\<close>

theorem child_nodes_in_order_witness:
  "fetches_succeed 1 api_two_level hdrs (Some ''root'') ''ts'' ''https://go'' ''emnesager''
   \<and> (1::nat) < 3
   \<and> (\<exists>t es content chs.
           get_child_terms 3 api_two_level hdrs (Some ''root'') ''ts'' ''https://go'' ''emnesager''
             = (Return (Some t), es)
         \<and> content_of api_two_level hdrs (Some ''root'') ''ts'' ''https://go'' ''emnesager'' = Some content
         \<and> t = TermDict [(''Id'', Some ''root'')] (Some chs)
         \<and> map fields chs
             = map (\<lambda>node. [(''Name'', node_Nm node), (''Id'', node_Id node), (''ParentId'', Some ''root'')])
                 (filter carries_both content)
         \<and> list_all2 (\<lambda>node child.
               if declared_children node
               then (\<exists>sub es'. get_child_terms (3 - 1) api_two_level hdrs (node_Id node)
                                  ''ts'' ''https://go'' ''emnesager'' = (Return (Some sub), es')
                              \<and> children sub \<noteq> None \<and> children child = children sub)
               else children child = None)
             (filter carries_both content) chs
         \<and> guids es = expanded t)
   \<and> get_child_terms 3 api_two_level hdrs (Some ''root'') ''ts'' ''https://go'' ''emnesager''
       = (Return (Some tree_two_level),
          [PostJson term_url hdrs \<lparr>guid = Some ''root'', termsetId = Some ''ts''\<rparr>,
           PostJson term_url hdrs \<lparr>guid = Some ''a'', termsetId = Some ''ts''\<rparr>])
   \<and> expanded tree_two_level = [Some ''root'', Some ''a'']"
proof -
  have h: "fetches_succeed 1 api_two_level hdrs (Some ''root'') ''ts'' ''https://go'' ''emnesager''"
    by (simp add: content_of_def post_data_def api_two_level_def request_body_def carries_both_def
          declared_children_def)
  have f: "(1::nat) < 3" by simp
  have e: "expanded tree_two_level = [Some ''root'', Some ''a'']"
    by (simp add: tree_two_level_def get_def)
  show ?thesis
    using child_nodes_in_order[OF h f] h f two_level_run e by blast
qed


section \<open>Inserting a tree\<close>

lemma insert_truthy:
  "truthy_dict (Some data) \<Longrightarrow>
   \<exists>rest. insert_term_data_to_sql db (Some data) conn ts sp
            = Execute conn (''rpa.'' @ sp) (sql_data_params data ts) # rest"
  by (cases data) (simp add: Let_def)

text \<open>
  Claim C10. For a tree returned by \<open>_get_child_terms\<close>, the first stored-procedure
  call of \<open>_insert_term_data_to_sql\<close> is for the root record itself, with the string
  \<open>None\<close> as name and as parent. In general the first call for a non-empty dictionary
  carries its own parameters, and each of \<open>Name\<close>, \<open>Id\<close> and \<open>ParentId\<close> that is
  missing is passed as the string \<open>None\<close>.
\<close>

theorem root_record_params:
  "(get_child_terms fuel api_client headers parent_uuid term_set_uuid base_url case_type
      = (Return (Some tree), es)
    \<longrightarrow> (\<exists>rest. insert_term_data_to_sql db (Some tree) sql_conn_string term_set_uuid sql_stored_procedure
                 = Execute sql_conn_string (''rpa.'' @ sql_stored_procedure)
                     [(''name'', ''str'', ''None''), (''uuid'', ''str'', fstr parent_uuid),
                      (''parent_uuid'', ''str'', ''None''), (''term_set_uuid'', ''str'', term_set_uuid)]
                   # rest))
   \<and> (truthy_dict (Some data)
      \<longrightarrow> (\<exists>rest. insert_term_data_to_sql db (Some data) sql_conn_string term_set_uuid sql_stored_procedure
                   = Execute sql_conn_string (''rpa.'' @ sql_stored_procedure)
                       (sql_data_params data term_set_uuid) # rest)
          \<and> (map_of (fields data) ''Name'' = None
                \<longrightarrow> (''name'', ''str'', ''None'') \<in> set (sql_data_params data term_set_uuid))
          \<and> (map_of (fields data) ''Id'' = None
                \<longrightarrow> (''uuid'', ''str'', ''None'') \<in> set (sql_data_params data term_set_uuid))
          \<and> (map_of (fields data) ''ParentId'' = None
                \<longrightarrow> (''parent_uuid'', ''str'', ''None'') \<in> set (sql_data_params data term_set_uuid)))"
proof (intro conjI impI)
  assume "get_child_terms fuel api_client headers parent_uuid term_set_uuid base_url case_type
      = (Return (Some tree), es)"
  from get_child_terms_shape[OF this] obtain chs where
    tree: "tree = TermDict [(''Id'', parent_uuid)] (Some chs)" by blast
  then have "truthy_dict (Some tree)" by simp
  from insert_truthy[OF this, of db sql_conn_string term_set_uuid sql_stored_procedure]
  show "\<exists>rest. insert_term_data_to_sql db (Some tree) sql_conn_string term_set_uuid sql_stored_procedure
                 = Execute sql_conn_string (''rpa.'' @ sql_stored_procedure)
                     [(''name'', ''str'', ''None''), (''uuid'', ''str'', fstr parent_uuid),
                      (''parent_uuid'', ''str'', ''None''), (''term_set_uuid'', ''str'', term_set_uuid)]
                   # rest"
    by (simp add: tree sql_data_params_def get_def)
next
  assume "truthy_dict (Some data)"
  then show "\<exists>rest. insert_term_data_to_sql db (Some data) sql_conn_string term_set_uuid sql_stored_procedure
                   = Execute sql_conn_string (''rpa.'' @ sql_stored_procedure)
                       (sql_data_params data term_set_uuid) # rest"
    by (rule insert_truthy)
qed (simp_all add: sql_data_params_def get_def)

text \<open>The two-level tree, and a dictionary that has the key \<open>Children\<close> only.\<close>

theorem root_record_params_witness:
  "get_child_terms 3 api_two_level hdrs (Some ''root'') ''ts'' ''https://go'' ''emnesager''
   = (Return (Some tree_two_level),
      [PostJson term_url hdrs \<lparr>guid = Some ''root'', termsetId = Some ''ts''\<rparr>,
       PostJson term_url hdrs \<lparr>guid = Some ''a'', termsetId = Some ''ts''\<rparr>])
   \<and> (\<exists>rest. insert_term_data_to_sql db_ok (Some tree_two_level) ''Server=db'' ''ts'' ''GO_Departments_Insert''
               = Execute ''Server=db'' ''rpa.GO_Departments_Insert''
                   [(''name'', ''str'', ''None''), (''uuid'', ''str'', ''root''),
                    (''parent_uuid'', ''str'', ''None''), (''term_set_uuid'', ''str'', ''ts'')]
                 # rest)
   \<and> truthy_dict (Some (TermDict [] (Some [])))
   \<and> map_of (fields (TermDict [] (Some []))) ''Name'' = None
   \<and> map_of (fields (TermDict [] (Some []))) ''Id'' = None
   \<and> map_of (fields (TermDict [] (Some []))) ''ParentId'' = None
   \<and> insert_term_data_to_sql db_ok (Some (TermDict [] (Some []))) ''Server=db'' ''ts'' ''GO_Departments_Insert''
       = [Execute ''Server=db'' ''rpa.GO_Departments_Insert''
            [(''name'', ''str'', ''None''), (''uuid'', ''str'', ''None''),
             (''parent_uuid'', ''str'', ''None''), (''term_set_uuid'', ''str'', ''ts'')]]
   \<and> (''name'', ''str'', ''None'') \<in> set (sql_data_params (TermDict [] (Some [])) ''ts'')
   \<and> (''uuid'', ''str'', ''None'') \<in> set (sql_data_params (TermDict [] (Some [])) ''ts'')
   \<and> (''parent_uuid'', ''str'', ''None'') \<in> set (sql_data_params (TermDict [] (Some [])) ''ts'')"
proof -
  have i: "insert_term_data_to_sql db_ok (Some (TermDict [] (Some []))) ''Server=db'' ''ts'' ''GO_Departments_Insert''
       = [Execute ''Server=db'' ''rpa.GO_Departments_Insert''
            [(''name'', ''str'', ''None''), (''uuid'', ''str'', ''None''),
             (''parent_uuid'', ''str'', ''None''), (''term_set_uuid'', ''str'', ''ts'')]]"
    by (simp add: sql_data_params_def get_def)
  show ?thesis
    using root_record_params[of 3 api_two_level hdrs "Some ''root''" "''ts''" "''https://go''"
        "''emnesager''" tree_two_level
        "[PostJson term_url hdrs \<lparr>guid = Some ''root'', termsetId = Some ''ts''\<rparr>,
          PostJson term_url hdrs \<lparr>guid = Some ''a'', termsetId = Some ''ts''\<rparr>]"
        db_ok "''Server=db''" "''GO_Departments_Insert''" "TermDict [] (Some [])"]
      two_level_run i
    by simp
qed

text \<open>
  The inserter calls the stored procedure once for every non-empty dictionary of the
  tree, node before children, whatever the database answers.
\<close>

lemma insert_visits_preorder:
  "insert_term_data_to_sql db (Some t) conn ts sp
   = map (\<lambda>data. Execute conn (''rpa.'' @ sp) (sql_data_params data ts))
       (filter (\<lambda>data. truthy_dict (Some data)) (preorder t))"
proof (induction db "Some t" conn ts sp arbitrary: t rule: insert_term_data_to_sql.induct)
  case (2 db fs chs conn ts sp)
  show ?case
  proof (cases chs)
    case None
    then show ?thesis by (simp add: Let_def)
  next
    case (Some cs)
    have "truthy_dict (Some (TermDict fs chs))" using Some by simp
    have IH: "insert_term_data_to_sql db (Some c) conn ts sp
       = map (\<lambda>data. Execute conn (''rpa.'' @ sp) (sql_data_params data ts))
           (filter (\<lambda>data. truthy_dict (Some data)) (preorder c))" if "c \<in> set cs" for c
      using 2(1)[OF _ refl refl, of c] that Some by simp
    have "concat (map (\<lambda>c. insert_term_data_to_sql db (Some c) conn ts sp) cs)
        = map (\<lambda>data. Execute conn (''rpa.'' @ sp) (sql_data_params data ts))
            (filter (\<lambda>data. truthy_dict (Some data)) (concat (map preorder cs)))"
      using IH by (induction cs) simp_all
    then show ?thesis using Some by (simp add: Let_def)
  qed
qed

text \<open>
  Claim C6 holds for the traversal (\<open>insert_visits_preorder\<close>). It fails for the log:
  the answer of the stored procedure is dropped, so a failure is not logged. Here the
  upsert of \<open>b\<close> reports a failure; all four nodes are visited and nothing is printed.
\<close>

theorem failed_upsert_not_logged:
  "insert_term_data_to_sql db_fails_on_b (Some tree_four) ''Server=db'' ''ts'' ''GO_Departments_Insert''
   = [upsert ''A'' ''a'' ''root'', upsert ''B'' ''b'' ''a'', upsert ''D'' ''d'' ''b'', upsert ''C'' ''c'' ''a'']
   \<and> \<not> success (db_fails_on_b ''Server=db'' ''rpa.GO_Departments_Insert''
                  [(''name'', ''str'', ''B''), (''uuid'', ''str'', ''b''), (''parent_uuid'', ''str'', ''a''),
                   (''term_set_uuid'', ''str'', ''ts'')])
   \<and> filter is_print (insert_term_data_to_sql db_fails_on_b (Some tree_four) ''Server=db'' ''ts''
                         ''GO_Departments_Insert'') = []"
  by (simp add: tree_four_def db_fails_on_b_def upsert_def sql_data_params_def get_def Let_def)


section \<open>A fetch that fails\<close>

text \<open>
  A fetch that fails or gives no content makes \<open>_get_child_terms\<close> return \<open>None\<close>, and
  the top-level caller then inserts nothing and returns.
\<close>

lemma failed_fetch_returns_None:
  "content_of api_client headers parent_uuid ts base_url ct = None \<Longrightarrow>
   get_child_terms (Suc n) api_client headers parent_uuid ts base_url ct
   = (Return None, snd (post_data api_client (request_url parent_uuid base_url ct) headers
                          (request_body parent_uuid ts)))"
  by (auto simp: content_of_def split: prod.splits option.splits tx_json.splits)

lemma absent_tree_inserts_nothing:
  assumes "credentials ''go_api_username'' \<noteq> None" "credentials ''go_api_password'' \<noteq> None"
    "credentials ''sql_conn_string'' \<noteq> None"
    and "get_form_digest page (base_url @ ''/'' @ ct @ ''/_layouts/15/termstoremanager.aspx'')
           = (Return (Some v), es)" "v \<noteq> []"
    and "get_child_terms fuel api_client
           [(''Content-Type'', ''application/json; charset=UTF-8''), (''X-RequestDigest'', v)]
           start ts base_url ct = (Return None, es')"
  shows "pull_term_data_from_go_to_sql fuel page api_client db credentials base_url ct start sp ts
         = (Return (), es @ es')"
  using assms by (auto simp: pull_term_data_from_go_to_sql_def Let_def)

text \<open>
  Claim C2 holds at the top level (\<open>absent_tree_inserts_nothing\<close>). It fails in the
  recursion: when the fetch for a child that declares children fails, the caller
  subscripts \<open>None\<close>, and the \<open>TypeError\<close> leaves \<open>_get_child_terms\<close> and
  \<open>pull_term_data_from_go_to_sql\<close>; nothing is inserted.
\<close>

theorem failed_child_fetch_raises:
  "get_child_terms 3 api_child_fails hdrs (Some ''root'') ''ts'' ''https://go'' ''emnesager''
   = (Raise (TypeError none_not_subscriptable),
      [PostJson term_url hdrs \<lparr>guid = Some ''root'', termsetId = Some ''ts''\<rparr>,
       PostJson term_url hdrs \<lparr>guid = Some ''a'', termsetId = Some ''ts''\<rparr>,
       Print ''Request failed. Error message: 503 Server Error''])
   \<and> fst (pull_term_data_from_go_to_sql 3 digest_ok api_child_fails db_ok creds_all ''https://go''
            ''emnesager'' (Some ''root'') ''GO_Departments_Insert'' ''ts'')
       = Raise (TypeError none_not_subscriptable)
   \<and> filter is_execute
         (snd (pull_term_data_from_go_to_sql 3 digest_ok api_child_fails db_ok creds_all ''https://go''
                 ''emnesager'' (Some ''root'') ''GO_Departments_Insert'' ''ts'')) = []"
  by (simp add: eval_nat_numeral api_child_fails_def post_data_def request_url_def request_body_def parent_id_bool_def
        declared_children_def term_url_def Let_def pull_term_data_from_go_to_sql_def creds_all_def
        get_form_digest_def digest_ok_def hdrs_def)

end
